theory Spec2Isabelle
  imports Complex_Main "HOL-Library.Multiset" "HOL-Library.Char_ord" "HOL-Library.List_Lexorder"
begin

section \<open>Configuration tables (configs/config.template.ts)\<close>

text \<open>
  A \<open>TaskStatus\<close> and a \<open>TaskPriority\<close> are string literal types of TypeScript: at run
  time they are strings, and the tables are objects keyed by those strings. The tables
  are association lists in the order the source writes them; the display metadata
  (\<open>Icon.*\<close>, \<open>Color.*\<close> of the UI framework) is kept as the name of the member.
\<close>

type_synonym TaskStatus = string
type_synonym TaskPriority = string

record StatusConfig =
  sc_title :: string
  sc_icon :: string
  sc_color :: string
  sc_description :: string
  canTransitionTo :: "TaskStatus list option"

definition STATUS_CONFIG :: "(TaskStatus \<times> StatusConfig) list" where
  "STATUS_CONFIG =
    [(''pending'', \<lparr>sc_title = ''Pending'', sc_icon = ''Circle'', sc_color = ''PrimaryText'',
        sc_description = ''Tasks ready to start'',
        canTransitionTo = Some [''in-progress'', ''cancelled'']\<rparr>),
     (''in-progress'', \<lparr>sc_title = ''In Progress'', sc_icon = ''Clock'', sc_color = ''Blue'',
        sc_description = ''Currently being worked on'',
        canTransitionTo = Some [''review'', ''done'', ''deferred'']\<rparr>),
     (''review'', \<lparr>sc_title = ''Review'', sc_icon = ''Eye'', sc_color = ''Orange'',
        sc_description = ''Awaiting review and approval'',
        canTransitionTo = Some [''done'', ''in-progress'']\<rparr>),
     (''done'', \<lparr>sc_title = ''Done'', sc_icon = ''CheckCircle'', sc_color = ''Green'',
        sc_description = ''Completed tasks'',
        canTransitionTo = Some [''in-progress'']\<rparr>),
     (''deferred'', \<lparr>sc_title = ''Deferred'', sc_icon = ''Pause'', sc_color = ''Yellow'',
        sc_description = ''Postponed for later'',
        canTransitionTo = Some [''pending'', ''cancelled'']\<rparr>),
     (''cancelled'', \<lparr>sc_title = ''Cancelled'', sc_icon = ''XMarkCircle'', sc_color = ''Red'',
        sc_description = ''Cancelled or abandoned'',
        canTransitionTo = Some [''pending'']\<rparr>)]"

text \<open>\<open>STATUS_CONFIG[currentStatus]?.canTransitionTo || []\<close>: an unknown status and an
  entry without the optional field both give the empty list.\<close>

definition getValidTransitions :: "TaskStatus \<Rightarrow> TaskStatus list" where
  "getValidTransitions currentStatus =
     (case map_of STATUS_CONFIG currentStatus of
        None \<Rightarrow> []
      | Some config \<Rightarrow> (case canTransitionTo config of None \<Rightarrow> [] | Some ts \<Rightarrow> ts))"

definition isValidTransition :: "TaskStatus \<Rightarrow> TaskStatus \<Rightarrow> bool" where
  "isValidTransition from to = (to \<in> set (getValidTransitions from))"

record PriorityConfig =
  pc_icon :: string
  pc_color :: string
  pc_label :: string
  weight :: int
  pc_description :: "string option"

definition PRIORITY_CONFIG :: "(TaskPriority \<times> PriorityConfig) list" where
  "PRIORITY_CONFIG =
    [(''high'', \<lparr>pc_icon = ''ExclamationMark'', pc_color = ''Red'', pc_label = ''High Priority'',
        weight = 3, pc_description = Some ''Urgent tasks requiring immediate attention''\<rparr>),
     (''medium'', \<lparr>pc_icon = ''Minus'', pc_color = ''Orange'', pc_label = ''Medium Priority'',
        weight = 2, pc_description = Some ''Important tasks with moderate urgency''\<rparr>),
     (''low'', \<lparr>pc_icon = ''ChevronDown'', pc_color = ''PrimaryText'', pc_label = ''Low Priority'',
        weight = 1, pc_description = Some ''Tasks that can be done when time permits''\<rparr>)]"

section \<open>Tasks (configs/types.template.ts, as its users and the README give it)\<close>

text \<open>
  The type declarations of \<open>configs/types.template.ts\<close> are not among the sources; the
  record follows the interface printed in the README and the fields the validation
  utilities read. A JavaScript number is a \<open>real\<close> (\<open>NaN\<close> and the infinities are left
  out), an optional field is an \<open>option\<close>, and a string is a list of code units
  (restricted to the 8-bit range of \<open>char\<close>). The validator tests \<open>description\<close>
  against \<open>undefined\<close>, so the field is optional here.
\<close>

datatype SubtaskDep = DepNumber real | DepString string

record Subtask =
  subtask_id :: real
  subtask_title :: string
  subtask_status :: TaskStatus
  subtask_dependencies :: "SubtaskDep list option"

record Task =
  task_id :: string
  title :: string
  description :: "string option"
  status :: TaskStatus
  priority :: TaskPriority
  details :: "string option"
  dependencies :: "string list option"
  complexityScore :: "real option"
  subtasks :: "Subtask list option"
  testStrategy :: "string option"

section \<open>The basic task manager's types (basic-task-manager/types.ts)\<close>

text \<open>
  The basic template declares its own \<open>Task\<close>: a three-state status, three priorities
  and two timestamps. The string literal unions are datatypes here. A \<open>Date\<close> holds a
  time value in milliseconds since the epoch, or is the invalid date (\<open>NaN\<close>).
\<close>

datatype BasicStatus = Todo | InProgress | Done

datatype BasicPriority = High | Medium | Low

datatype Date = DateOf int | InvalidDate

text \<open>\<open>Date.prototype.getTime\<close>; \<open>None\<close> stands for \<open>NaN\<close>.\<close>

fun getTime :: "Date \<Rightarrow> int option" where
  "getTime (DateOf ms) = Some ms"
| "getTime InvalidDate = None"

record BasicTask =
  b_id :: string
  b_title :: string
  b_description :: "string option"
  b_status :: BasicStatus
  b_priority :: BasicPriority
  createdAt :: Date
  updatedAt :: Date

datatype SortField = ByTitle | ByStatus | ByPriority | ByCreatedAt | ByUpdatedAt

datatype SortOrder = Asc | Desc

record SortOptions =
  field :: SortField
  order :: SortOrder

section \<open>Strings and the identifier pattern\<close>

text \<open>
  \<open>String.prototype.trim\<close> removes white space and line terminators from both ends; in
  the 8-bit range these are the code units 9 to 13, 32 and 160.
\<close>

definition isWhiteSpace :: "char \<Rightarrow> bool" where
  "isWhiteSpace c = (of_char c \<in> {9, 10, 11, 12, 13, 32, 160 :: nat})"

definition trim :: "string \<Rightarrow> string" where
  "trim s = rev (dropWhile isWhiteSpace (rev (dropWhile isWhiteSpace s)))"

text \<open>
  The default \<open>idPattern\<close> is \<open>/^[1-9]\\d*(\\.[1-9]\\d*)*$/\<close>: dot-separated segments, each a
  non-zero digit followed by digits. \<open>idSegmentStart\<close> is the automaton at the start of a
  segment, \<open>idSegmentRest\<close> after its first digit.
\<close>

definition isDigit :: "char \<Rightarrow> bool" where
  "isDigit c = (c \<in> set ''0123456789'')"

definition isNonZeroDigit :: "char \<Rightarrow> bool" where
  "isNonZeroDigit c = (c \<in> set ''123456789'')"

fun idSegmentStart :: "string \<Rightarrow> bool" and idSegmentRest :: "string \<Rightarrow> bool" where
  "idSegmentStart [] = False"
| "idSegmentStart (c # cs) = (isNonZeroDigit c \<and> idSegmentRest cs)"
| "idSegmentRest [] = True"
| "idSegmentRest (c # cs) =
     (if isDigit c then idSegmentRest cs
      else if c = CHR ''.'' then idSegmentStart cs
      else False)"

definition defaultIdPattern :: "string \<Rightarrow> bool" where
  "defaultIdPattern s = idSegmentStart s"

section \<open>Validation utilities (validateTask, validateSubtask)\<close>

datatype SubtaskProblem =
    SubtaskIdNotPositive
  | SubtaskTitleRequired
  | SubtaskTitleEmpty
  | InvalidSubtaskStatus string
  | SubtaskSelfDependency

datatype ValidationError =
    TaskIdRequired
  | TaskIdFormat string
  | TitleRequired
  | TitleTooShort real
  | TitleTooLong real
  | DescriptionTooLong real
  | InvalidStatus string
  | InvalidPriority string
  | DescriptionRequired string
  | ComplexityOutOfRange
  | SelfDependency
  | InvalidDependencyFormat string
  | MissingDependencyTasks "string list"
  | SubtaskError nat SubtaskProblem
  | DuplicateSubtaskIds
  | DescriptionNotString
  | DependenciesNotArray
  | SubtasksNotArray

datatype ValidationWarning =
    TitleWhitespace
  | DuplicateDependencies
  | EmptySubtasks
  | UnresolvedDependencies "string list"
  | IncompleteSubtasks nat

record ValidationResult =
  isValid :: bool
  errors :: "ValidationError list"
  warnings :: "ValidationWarning list"

record ValidationOptions =
  requireDescriptionForPriority :: "TaskPriority list option"
  maxTitleLength :: "real option"
  minTitleLength :: "real option"
  maxDescriptionLength :: "real option"
  idPattern :: "(string \<Rightarrow> bool) option"
  checkCircularDependencies :: "bool option"
  existingTasks :: "Task list option"
  allowEmptySubtasks :: "bool option"

definition orDefault :: "'a option \<Rightarrow> 'a \<Rightarrow> 'a" where
  "orDefault v d = (case v of None \<Rightarrow> d | Some x \<Rightarrow> x)"

definition validStatuses :: "TaskStatus list" where
  "validStatuses = [''pending'', ''in-progress'', ''review'', ''done'', ''deferred'', ''cancelled'']"

definition validPriorities :: "TaskPriority list" where
  "validPriorities = [''high'', ''medium'', ''low'']"

definition validateSubtask :: "Subtask \<Rightarrow> string \<Rightarrow> nat \<Rightarrow> SubtaskProblem list" where
  "validateSubtask subtask parentTaskId index =
     (if subtask_id subtask < 1 then [SubtaskIdNotPositive] else []) @
     (if subtask_title subtask = [] then [SubtaskTitleRequired]
      else if length (trim (subtask_title subtask)) = 0 then [SubtaskTitleEmpty] else []) @
     (if subtask_status subtask \<notin> set validStatuses
      then [InvalidSubtaskStatus (subtask_status subtask)] else []) @
     (case subtask_dependencies subtask of
        None \<Rightarrow> []
      | Some deps \<Rightarrow>
          if DepNumber (subtask_id subtask) \<in> set deps \<or> DepString parentTaskId \<in> set deps
          then [SubtaskSelfDependency] else [])"

definition idErrors :: "Task \<Rightarrow> (string \<Rightarrow> bool) \<Rightarrow> ValidationError list" where
  "idErrors task pat =
     (if task_id task = [] then [TaskIdRequired]
      else if \<not> pat (task_id task) then [TaskIdFormat (task_id task)]
      else [])"

definition titleErrors :: "Task \<Rightarrow> real \<Rightarrow> real \<Rightarrow> ValidationError list" where
  "titleErrors task minLen maxLen =
     (if title task = [] then [TitleRequired]
      else (if real (length (trim (title task))) < minLen then [TitleTooShort minLen] else []) @
           (if real (length (title task)) > maxLen then [TitleTooLong maxLen] else []))"

definition titleWarnings :: "Task \<Rightarrow> ValidationWarning list" where
  "titleWarnings task =
     (if title task \<noteq> [] \<and> trim (title task) \<noteq> title task then [TitleWhitespace] else [])"

definition descriptionErrors :: "Task \<Rightarrow> real \<Rightarrow> ValidationError list" where
  "descriptionErrors task maxLen =
     (case description task of
        None \<Rightarrow> []
      | Some d \<Rightarrow> if real (length d) > maxLen then [DescriptionTooLong maxLen] else [])"

definition statusErrors :: "Task \<Rightarrow> ValidationError list" where
  "statusErrors task =
     (if status task \<notin> set validStatuses then [InvalidStatus (status task)] else [])"

definition priorityErrors :: "Task \<Rightarrow> ValidationError list" where
  "priorityErrors task =
     (if priority task \<notin> set validPriorities then [InvalidPriority (priority task)] else [])"

definition descriptionMissing :: "Task \<Rightarrow> bool" where
  "descriptionMissing task =
     (case description task of
        None \<Rightarrow> True
      | Some d \<Rightarrow> d = [] \<or> length (trim d) = 0)"

definition descriptionRequiredErrors :: "Task \<Rightarrow> TaskPriority list \<Rightarrow> ValidationError list" where
  "descriptionRequiredErrors task required =
     (if priority task \<in> set required then
        (if descriptionMissing task then [DescriptionRequired (priority task)] else [])
      else [])"

definition complexityErrors :: "Task \<Rightarrow> ValidationError list" where
  "complexityErrors task =
     (case complexityScore task of
        None \<Rightarrow> []
      | Some c \<Rightarrow> if c < 1 \<or> c > 10 then [ComplexityOutOfRange] else [])"

definition dependencyErrors :: "Task \<Rightarrow> (string \<Rightarrow> bool) \<Rightarrow> Task list \<Rightarrow> ValidationError list" where
  "dependencyErrors task pat existing =
     (case dependencies task of
        None \<Rightarrow> []
      | Some deps \<Rightarrow>
          (if task_id task \<in> set deps then [SelfDependency] else []) @
          map InvalidDependencyFormat (filter (\<lambda>depId. \<not> pat depId) deps) @
          (if length existing > 0 then
             (let existingIds = map task_id existing;
                  missingDeps = filter (\<lambda>depId. depId \<notin> set existingIds) deps
              in if length missingDeps > 0 then [MissingDependencyTasks missingDeps] else [])
           else []))"

definition dependencyWarnings :: "Task \<Rightarrow> ValidationWarning list" where
  "dependencyWarnings task =
     (case dependencies task of
        None \<Rightarrow> []
      | Some deps \<Rightarrow> if length (remdups deps) \<noteq> length deps then [DuplicateDependencies] else [])"

definition subtaskErrors :: "Task \<Rightarrow> ValidationError list" where
  "subtaskErrors task =
     (case subtasks task of
        None \<Rightarrow> []
      | Some sts \<Rightarrow>
          concat (map (\<lambda>(index, subtask).
                    map (SubtaskError (index + 1)) (validateSubtask subtask (task_id task) index))
                  (enumerate 0 sts)) @
          (let subtaskIds = map subtask_id sts
           in if length (remdups subtaskIds) \<noteq> length subtaskIds then [DuplicateSubtaskIds] else []))"

definition subtaskWarnings :: "Task \<Rightarrow> bool \<Rightarrow> ValidationWarning list" where
  "subtaskWarnings task allowEmpty =
     (case subtasks task of
        None \<Rightarrow> []
      | Some sts \<Rightarrow> if \<not> allowEmpty \<and> length sts = 0 then [EmptySubtasks] else [])"

definition workflowWarnings :: "Task \<Rightarrow> Task list \<Rightarrow> ValidationWarning list" where
  "workflowWarnings task existing =
     (case dependencies task of
        Some deps \<Rightarrow>
          if status task = ''in-progress'' \<and> length existing > 0 then
            (let blockedDependencies =
                   filter (\<lambda>depId. case find (\<lambda>t. task_id t = depId) existing of
                                      None \<Rightarrow> False
                                    | Some depTask \<Rightarrow> status depTask \<noteq> ''done'') deps
             in if length blockedDependencies > 0 then [UnresolvedDependencies blockedDependencies] else [])
          else []
      | None \<Rightarrow> []) @
     (case subtasks task of
        Some sts \<Rightarrow>
          if status task = ''done'' then
            (let incompleteSubtasks = filter (\<lambda>st. subtask_status st \<noteq> ''done'') sts
             in if length incompleteSubtasks > 0 then [IncompleteSubtasks (length incompleteSubtasks)] else [])
          else []
      | None \<Rightarrow> [])"

definition validateTask :: "Task \<Rightarrow> ValidationOptions \<Rightarrow> ValidationResult" where
  "validateTask task options =
     (let required = orDefault (requireDescriptionForPriority options) [''high''];
          maxTitle = orDefault (maxTitleLength options) 100;
          minTitle = orDefault (minTitleLength options) 1;
          maxDescription = orDefault (maxDescriptionLength options) 1000;
          pat = orDefault (idPattern options) defaultIdPattern;
          allowEmpty = orDefault (allowEmptySubtasks options) False;
          existing = orDefault (existingTasks options) [];
          errs = idErrors task pat @ titleErrors task minTitle maxTitle @
                 descriptionErrors task maxDescription @ statusErrors task @ priorityErrors task @
                 descriptionRequiredErrors task required @ complexityErrors task @
                 dependencyErrors task pat existing @ subtaskErrors task;
          warns = titleWarnings task @ dependencyWarnings task @ subtaskWarnings task allowEmpty @
                  workflowWarnings task existing
      in \<lparr>isValid = (length errs = 0), errors = errs, warnings = warns\<rparr>)"

definition defaultOptions :: ValidationOptions where
  "defaultOptions = \<lparr>requireDescriptionForPriority = None, maxTitleLength = None,
     minTitleLength = None, maxDescriptionLength = None, idPattern = None,
     checkCircularDependencies = None, existingTasks = None, allowEmptySubtasks = None\<rparr>"

section \<open>Dependency analysis (findCircularDependencies)\<close>

text \<open>
  \<open>new Map(tasks.map(task => [task.id, task]))\<close>: a later entry with the same key
  replaces an earlier one, so the lookup finds the last task with the identifier.
\<close>

definition taskMapOf :: "Task list \<Rightarrow> (string \<rightharpoonup> Task)" where
  "taskMapOf tasks = map_of (rev (map (\<lambda>task. (task_id task, task)) tasks))"

text \<open>
  The three mutable collections the closure \<open>dfs\<close> works on. Only \<open>has\<close>, \<open>add\<close> and
  \<open>delete\<close> are used on the two \<open>Set\<close>s, so they are sets; \<open>cycles\<close> grows by \<open>push\<close>.
\<close>

record dfs_state =
  visited :: "string set"
  recursionStack :: "string set"
  cycles :: "string list list"

text \<open>\<open>Array.prototype.indexOf\<close>: the first index of the element, \<open>None\<close> for \<open>-1\<close>.\<close>

fun indexOf :: "'a list \<Rightarrow> 'a \<Rightarrow> nat option" where
  "indexOf [] x = None"
| "indexOf (y # ys) x = (if y = x then Some 0 else map_option Suc (indexOf ys x))"

text \<open>
  \<open>dfs\<close> is the inner function of \<open>findCircularDependencies\<close>; \<open>dfs_forEach\<close> is its
  \<open>task.dependencies.forEach\<close>, which calls \<open>dfs\<close> on every dependency the map knows,
  with the path extended by it.
\<close>

function dfs :: "Task list \<Rightarrow> string \<Rightarrow> string list \<Rightarrow> dfs_state \<Rightarrow> dfs_state"
  and dfs_forEach :: "Task list \<Rightarrow> string list \<Rightarrow> string list \<Rightarrow> dfs_state \<Rightarrow> dfs_state"
where
  "dfs tasks taskId path s =
     (if taskId \<in> recursionStack s then
        (case indexOf path taskId of
           Some cycleStart \<Rightarrow> s\<lparr>cycles := cycles s @ [drop cycleStart path]\<rparr>
         | None \<Rightarrow> s)
      else if taskId \<in> visited s then s
      else
        (let s1 = s\<lparr>visited := insert taskId (visited s),
                     recursionStack := insert taskId (recursionStack s)\<rparr>;
             s2 = (case taskMapOf tasks taskId of
                     None \<Rightarrow> s1
                   | Some task \<Rightarrow>
                       (case dependencies task of
                          None \<Rightarrow> s1
                        | Some deps \<Rightarrow> dfs_forEach tasks deps path s1))
         in s2\<lparr>recursionStack := recursionStack s2 - {taskId}\<rparr>))"
| "dfs_forEach tasks [] path s = s"
| "dfs_forEach tasks (depId # rest) path s =
     dfs_forEach tasks rest path
       (if taskMapOf tasks depId \<noteq> None then dfs tasks depId (path @ [depId]) s else s)"
  by pat_completeness auto

text \<open>
  The recursion is nested (the state of one call is the result of another), so
  termination needs a fact about the function on its domain first: a call never
  forgets a visited identifier. Every call that recurses marks an identifier of the
  map that was not visited before, and the map is finite.
\<close>

lemma dfs_visited_mono:
  "dfs_dfs_forEach_dom (Inl (tasks, taskId, path, s)) \<Longrightarrow> visited s \<subseteq> visited (dfs tasks taskId path s)"
  "dfs_dfs_forEach_dom (Inr (tasks, deps, path, s)) \<Longrightarrow> visited s \<subseteq> visited (dfs_forEach tasks deps path s)"
proof (induction tasks taskId path s and tasks deps path s rule: dfs_dfs_forEach.pinduct)
  case (1 tasks taskId path s)
  then show ?case
    by (auto simp: dfs.psimps Let_def split: option.splits)
next
  case (2 tasks path s)
  then show ?case by (simp add: dfs_forEach.psimps)
next
  case (3 tasks depId rest path s)
  then show ?case
    by (auto simp: dfs_forEach.psimps split: if_splits)
qed

definition dfs_unvisited :: "Task list \<times> string \<times> string list \<times> dfs_state + Task list \<times> string list \<times> string list \<times> dfs_state \<Rightarrow> nat" where
  "dfs_unvisited x =
     (case x of
        Inl (tasks, taskId, path, s) \<Rightarrow> card (dom (taskMapOf tasks) - visited s)
      | Inr (tasks, deps, path, s) \<Rightarrow> card (dom (taskMapOf tasks) - visited s))"

definition dfs_pending :: "Task list \<times> string \<times> string list \<times> dfs_state + Task list \<times> string list \<times> string list \<times> dfs_state \<Rightarrow> nat" where
  "dfs_pending x = (case x of Inl _ \<Rightarrow> 0 | Inr (tasks, deps, path, s) \<Rightarrow> Suc (length deps))"

lemma card_unvisited_mono:
  "V \<subseteq> V' \<Longrightarrow> card (dom (taskMapOf tasks) - V') \<le> card (dom (taskMapOf tasks) - V)"
  by (rule card_mono) (auto simp: taskMapOf_def finite_dom_map_of)

lemma card_unvisited_less:
  "taskMapOf tasks k = Some t \<Longrightarrow> k \<notin> V \<Longrightarrow>
   card (dom (taskMapOf tasks) - insert k V) < card (dom (taskMapOf tasks) - V)"
  by (rule psubset_card_mono) (auto simp: taskMapOf_def finite_dom_map_of)

termination dfs
proof (relation "measures [dfs_unvisited, dfs_pending]", goal_cases)
  case 1
  show ?case by simp
next
  case (2 tasks taskId path s x2 x2a)
  then show ?case
    by (simp add: dfs_unvisited_def card_unvisited_less)
next
  case (3 tasks depId rest path s)
  then show ?case by (simp add: dfs_unvisited_def dfs_pending_def)
next
  case (4 tasks depId rest path s)
  then show ?case
    using card_unvisited_mono[OF dfs_visited_mono(1), of tasks depId "path @ [depId]" s tasks]
    by (auto simp: dfs_unvisited_def dfs_pending_def le_less)
qed

declare dfs.simps [simp del]

text \<open>The final \<open>tasks.forEach\<close> of \<open>findCircularDependencies\<close>, from any state.\<close>

definition visitAll :: "Task list \<Rightarrow> Task list \<Rightarrow> dfs_state \<Rightarrow> dfs_state" where
  "visitAll tasks ts s0 =
     fold (\<lambda>task s. if task_id task \<notin> visited s
                     then dfs tasks (task_id task) [task_id task] s else s) ts s0"

definition findCircularDependencies :: "Task list \<Rightarrow> string list list" where
  "findCircularDependencies tasks =
     cycles (visitAll tasks tasks \<lparr>visited = {}, recursionStack = {}, cycles = []\<rparr>)"

text \<open>
  The dependency graph the detector walks: \<open>a\<close> depends on \<open>b\<close> when the task the map
  holds for \<open>a\<close> lists \<open>b\<close> and \<open>b\<close> is itself a key of the map.
\<close>

definition dependsOn :: "Task list \<Rightarrow> string \<Rightarrow> string \<Rightarrow> bool" where
  "dependsOn tasks a b =
     (case taskMapOf tasks a of
        None \<Rightarrow> False
      | Some task \<Rightarrow>
          (case dependencies task of
             None \<Rightarrow> False
           | Some deps \<Rightarrow> b \<in> set deps \<and> taskMapOf tasks b \<noteq> None))"

definition dependencyGraph :: "Task list \<Rightarrow> (string \<times> string) set" where
  "dependencyGraph tasks = {(a, b). dependsOn tasks a b}"

section \<open>Sorting (PriorityIndicator.template.tsx, basic-task-manager/utils/helpers.ts)\<close>

text \<open>
  \<open>Array.prototype.sort\<close> with a comparator is a stable sort (ECMAScript 2019): an
  element goes before the first element it does not compare greater than, and elements
  that compare equal keep their order. It is the insertion sort below; the source
  always sorts a copy (\<open>[...tasks]\<close>), so the input is not changed. For a consistent
  comparator (every comparator by priority or status is one) all stable sorts agree, so
  the model is exact. A comparator that yields \<open>NaN\<close> for some pairs, as the date
  comparators do on an invalid date, is not consistent: the order an engine produces is
  then implementation-defined and may differ from the one computed here.
\<close>

fun insertBy :: "('a \<Rightarrow> 'a \<Rightarrow> int) \<Rightarrow> 'a \<Rightarrow> 'a list \<Rightarrow> 'a list" where
  "insertBy cmp x [] = [x]"
| "insertBy cmp x (y # ys) = (if cmp x y \<le> 0 then x # y # ys else y # insertBy cmp x ys)"

definition arraySort :: "('a \<Rightarrow> 'a \<Rightarrow> int) \<Rightarrow> 'a list \<Rightarrow> 'a list" where
  "arraySort cmp xs = foldr (insertBy cmp) xs []"

text \<open>\<open>PRIORITY_CONFIG[priority]?.weight || 0\<close>: an unknown priority, and a weight of
  zero, give 0.\<close>

definition getPriorityWeight :: "TaskPriority \<Rightarrow> int" where
  "getPriorityWeight p =
     (case map_of PRIORITY_CONFIG p of
        None \<Rightarrow> 0
      | Some config \<Rightarrow> if weight config = 0 then 0 else weight config)"

definition comparePriorities :: "TaskPriority \<Rightarrow> TaskPriority \<Rightarrow> int" where
  "comparePriorities a b = getPriorityWeight b - getPriorityWeight a"

text \<open>\<open>sortByPriority\<close> of the priority indicator, on the tasks of the full schema.\<close>

definition sortByPriority :: "Task list \<Rightarrow> Task list" where
  "sortByPriority tasks = arraySort (\<lambda>a b. comparePriorities (priority a) (priority b)) tasks"

text \<open>The helpers of the basic template: \<open>sortTasks\<close> and its comparator.\<close>

fun priorityWeights :: "BasicPriority \<Rightarrow> int" where
  "priorityWeights High = 3"
| "priorityWeights Medium = 2"
| "priorityWeights Low = 1"

text \<open>\<open>statusOrder.indexOf\<close> on \<open>["todo", "in-progress", "done"]\<close>.\<close>

fun statusOrderIndex :: "BasicStatus \<Rightarrow> int" where
  "statusOrderIndex Todo = 0"
| "statusOrderIndex InProgress = 1"
| "statusOrderIndex Done = 2"

text \<open>
  A difference of two time values; with an invalid date it is \<open>NaN\<close>, which the sort
  reads as 0 whatever its sign.
\<close>

definition timeDifference :: "Date \<Rightarrow> Date \<Rightarrow> int" where
  "timeDifference a b =
     (case (getTime a, getTime b) of (Some x, Some y) \<Rightarrow> x - y | _ \<Rightarrow> 0)"

text \<open>
  The comparator of \<open>sortTasks\<close>. \<open>String.prototype.localeCompare\<close> depends on the
  host's locale and is a parameter.
\<close>

definition sortComparison :: "(string \<Rightarrow> string \<Rightarrow> int) \<Rightarrow> SortOptions \<Rightarrow> BasicTask \<Rightarrow> BasicTask \<Rightarrow> int" where
  "sortComparison localeCompare sortOptions a b =
     (let comparison =
            (case field sortOptions of
               ByTitle \<Rightarrow> localeCompare (b_title a) (b_title b)
             | ByStatus \<Rightarrow> statusOrderIndex (b_status a) - statusOrderIndex (b_status b)
             | ByPriority \<Rightarrow> priorityWeights (b_priority b) - priorityWeights (b_priority a)
             | ByCreatedAt \<Rightarrow> timeDifference (createdAt a) (createdAt b)
             | ByUpdatedAt \<Rightarrow> timeDifference (updatedAt a) (updatedAt b))
      in if order sortOptions = Desc then - comparison else comparison)"

definition sortTasks :: "(string \<Rightarrow> string \<Rightarrow> int) \<Rightarrow> BasicTask list \<Rightarrow> SortOptions \<Rightarrow> BasicTask list" where
  "sortTasks localeCompare tasks sortOptions =
     arraySort (sortComparison localeCompare sortOptions) tasks"

text \<open>\<open>sortByPriority\<close> of the helpers: \<open>sortTasks\<close> by priority, order \<open>asc\<close>.\<close>

definition helpers_sortByPriority :: "(string \<Rightarrow> string \<Rightarrow> int) \<Rightarrow> BasicTask list \<Rightarrow> BasicTask list" where
  "helpers_sortByPriority localeCompare tasks =
     sortTasks localeCompare tasks \<lparr>field = ByPriority, order = Asc\<rparr>"

section \<open>Storage adapters (basic-task-manager/utils/storage.ts)\<close>

subsection \<open>Errors, JSON text and dates\<close>

text \<open>
  A thrown JavaScript \<open>Error\<close>: its message and, for the errors of the Node.js file
  system, its \<open>code\<close>. An adapter wraps a failure in \<open>new Error(...)\<close>, which has no code.
\<close>

datatype JsError = JsError (code: "string option") (message: string)

text \<open>
  What \<open>JSON.stringify\<close> writes for a task: the fields as they are, an absent
  \<open>description\<close> left out, and each \<open>Date\<close> through \<open>Date.prototype.toJSON\<close>, which is
  \<open>toISOString()\<close> for a valid date and \<open>null\<close> for the invalid date. The ISO-8601 text of
  a time value is represented by \<open>IsoString\<close> of that value: \<open>toISOString\<close> and the \<open>Date\<close>
  constructor are inverse to each other on valid time values.
\<close>

datatype JsonDate = IsoString int | JsonNull

record StoredTask =
  s_id :: string
  s_title :: string
  s_description :: "string option"
  s_status :: BasicStatus
  s_priority :: BasicPriority
  s_createdAt :: JsonDate
  s_updatedAt :: JsonDate

fun toJSON_Date :: "Date \<Rightarrow> JsonDate" where
  "toJSON_Date (DateOf ms) = IsoString ms"
| "toJSON_Date InvalidDate = JsonNull"

text \<open>\<open>new Date(value)\<close> on a parsed value: an ISO string gives its time value, \<open>null\<close>
  converts to the number 0, the epoch.\<close>

fun newDate :: "JsonDate \<Rightarrow> Date" where
  "newDate (IsoString ms) = DateOf ms"
| "newDate JsonNull = DateOf 0"

definition toJSON :: "BasicTask \<Rightarrow> StoredTask" where
  "toJSON task =
     \<lparr>s_id = b_id task, s_title = b_title task, s_description = b_description task,
      s_status = b_status task, s_priority = b_priority task,
      s_createdAt = toJSON_Date (createdAt task), s_updatedAt = toJSON_Date (updatedAt task)\<rparr>"

text \<open>
  The contents of a file, a storage item or a response body: the text \<open>JSON.stringify\<close>
  writes for an array of tasks (with or without indentation), the empty string, or any
  other text, on which \<open>JSON.parse(data)\<close> or the \<open>parsed.map\<close> after it throws the given
  message.
\<close>

datatype JsonText = TaskArrayText "StoredTask list" | EmptyText | OtherText string

definition JSON_stringify :: "BasicTask list \<Rightarrow> JsonText" where
  "JSON_stringify tasks = TaskArrayText (map toJSON tasks)"

fun JSON_parse :: "JsonText \<Rightarrow> JsError + StoredTask list" where
  "JSON_parse (TaskArrayText parsed) = Inr parsed"
| "JSON_parse EmptyText = Inl (JsError None ''Unexpected end of JSON input'')"
| "JSON_parse (OtherText msg) = Inl (JsError None msg)"

text \<open>The re-hydration every \<open>loadTasks\<close> applies:
  \<open>{...task, createdAt: new Date(task.createdAt), updatedAt: new Date(task.updatedAt)}\<close>.\<close>

definition hydrate :: "StoredTask \<Rightarrow> BasicTask" where
  "hydrate task =
     \<lparr>b_id = s_id task, b_title = s_title task, b_description = s_description task,
      b_status = s_status task, b_priority = s_priority task,
      createdAt = newDate (s_createdAt task), updatedAt = newDate (s_updatedAt task)\<rparr>"

text \<open>The interface \<open>TaskStorage\<close>, over the state \<open>'w\<close> of the medium behind it. A
  rejected promise is \<open>Inl\<close> of the error; a save or clear that succeeds returns the new
  state of the medium.\<close>

record 'w TaskStorage =
  loadTasks :: "'w \<Rightarrow> JsError + BasicTask list"
  saveTasks :: "BasicTask list \<Rightarrow> 'w \<Rightarrow> JsError + 'w"
  clearTasks :: "'w \<Rightarrow> JsError + 'w"

subsection \<open>File storage\<close>

text \<open>
  The file system: the files that exist, and a fault (permissions, a full disk, ...)
  that makes every call fail with the given error when it is set. Reading or unlinking
  a file that does not exist fails with code \<open>ENOENT\<close>.
\<close>

record FileSystem =
  files :: "string \<rightharpoonup> JsonText"
  fs_fault :: "JsError option"

text \<open>Node's error for a missing file names the system call and quotes the path:
  \<open>ENOENT: no such file or directory, open 'tasks.json'\<close>.\<close>

definition noSuchFile :: "string \<Rightarrow> string \<Rightarrow> JsError" where
  "noSuchFile syscall path =
     JsError (Some ''ENOENT'')
       (''ENOENT: no such file or directory, '' @ syscall @ '' '' @ [CHR 0x27] @ path @ [CHR 0x27])"

definition readFile :: "FileSystem \<Rightarrow> string \<Rightarrow> JsError + JsonText" where
  "readFile fs path =
     (case fs_fault fs of
        Some e \<Rightarrow> Inl e
      | None \<Rightarrow> (case files fs path of
                   None \<Rightarrow> Inl (noSuchFile ''open'' path)
                 | Some data \<Rightarrow> Inr data))"

definition writeFile :: "FileSystem \<Rightarrow> string \<Rightarrow> JsonText \<Rightarrow> JsError + FileSystem" where
  "writeFile fs path data =
     (case fs_fault fs of
        Some e \<Rightarrow> Inl e
      | None \<Rightarrow> Inr (fs\<lparr>files := (files fs)(path \<mapsto> data)\<rparr>))"

definition unlink :: "FileSystem \<Rightarrow> string \<Rightarrow> JsError + FileSystem" where
  "unlink fs path =
     (case fs_fault fs of
        Some e \<Rightarrow> Inl e
      | None \<Rightarrow> (case files fs path of
                   None \<Rightarrow> Inl (noSuchFile ''unlink'' path)
                 | Some _ \<Rightarrow> Inr (fs\<lparr>files := (files fs)(path := None)\<rparr>)))"

definition FileStorage_loadTasks :: "string \<Rightarrow> FileSystem \<Rightarrow> JsError + BasicTask list" where
  "FileStorage_loadTasks filePath fs =
     (case (case readFile fs filePath of
              Inl e \<Rightarrow> Inl e
            | Inr data \<Rightarrow> (case JSON_parse data of
                             Inl e \<Rightarrow> Inl e
                           | Inr parsed \<Rightarrow> Inr (map hydrate parsed))) of
        Inr tasks \<Rightarrow> Inr tasks
      | Inl error \<Rightarrow>
          if code error = Some ''ENOENT'' then Inr []
          else Inl (JsError None (''Failed to load tasks: '' @ message error)))"

definition FileStorage_saveTasks :: "string \<Rightarrow> BasicTask list \<Rightarrow> FileSystem \<Rightarrow> JsError + FileSystem" where
  "FileStorage_saveTasks filePath tasks fs =
     (case writeFile fs filePath (JSON_stringify tasks) of
        Inr fs' \<Rightarrow> Inr fs'
      | Inl error \<Rightarrow> Inl (JsError None (''Failed to save tasks: '' @ message error)))"

definition FileStorage_clearTasks :: "string \<Rightarrow> FileSystem \<Rightarrow> JsError + FileSystem" where
  "FileStorage_clearTasks filePath fs =
     (case unlink fs filePath of
        Inr fs' \<Rightarrow> Inr fs'
      | Inl error \<Rightarrow>
          if code error \<noteq> Some ''ENOENT''
          then Inl (JsError None (''Failed to clear tasks: '' @ message error))
          else Inr fs)"

definition FileStorage :: "string \<Rightarrow> FileSystem TaskStorage" where
  "FileStorage filePath =
     \<lparr>loadTasks = FileStorage_loadTasks filePath,
      saveTasks = FileStorage_saveTasks filePath,
      clearTasks = FileStorage_clearTasks filePath\<rparr>"

subsection \<open>Browser local storage\<close>

text \<open>
  \<open>localStorage\<close>: the items it holds, and a fault (storage disabled, quota exceeded)
  that makes every call throw when it is set. \<open>getItem\<close> of an absent key is \<open>null\<close>.
\<close>

record WebStorage =
  items :: "string \<rightharpoonup> JsonText"
  ws_fault :: "JsError option"

definition getItem :: "WebStorage \<Rightarrow> string \<Rightarrow> JsError + JsonText option" where
  "getItem ws key = (case ws_fault ws of Some e \<Rightarrow> Inl e | None \<Rightarrow> Inr (items ws key))"

definition setItem :: "WebStorage \<Rightarrow> string \<Rightarrow> JsonText \<Rightarrow> JsError + WebStorage" where
  "setItem ws key data =
     (case ws_fault ws of
        Some e \<Rightarrow> Inl e
      | None \<Rightarrow> Inr (ws\<lparr>items := (items ws)(key \<mapsto> data)\<rparr>))"

definition removeItem :: "WebStorage \<Rightarrow> string \<Rightarrow> JsError + WebStorage" where
  "removeItem ws key =
     (case ws_fault ws of
        Some e \<Rightarrow> Inl e
      | None \<Rightarrow> Inr (ws\<lparr>items := (items ws)(key := None)\<rparr>))"

text \<open>\<open>if (!data) return []\<close>: \<open>null\<close> and the empty string are both falsy.\<close>

definition LocalStorage_loadTasks :: "string \<Rightarrow> WebStorage \<Rightarrow> JsError + BasicTask list" where
  "LocalStorage_loadTasks storageKey ws =
     (case (case getItem ws storageKey of
              Inl e \<Rightarrow> Inl e
            | Inr None \<Rightarrow> Inr []
            | Inr (Some EmptyText) \<Rightarrow> Inr []
            | Inr (Some data) \<Rightarrow> (case JSON_parse data of
                                    Inl e \<Rightarrow> Inl e
                                  | Inr parsed \<Rightarrow> Inr (map hydrate parsed))) of
        Inr tasks \<Rightarrow> Inr tasks
      | Inl error \<Rightarrow> Inl (JsError None (''Failed to load tasks: '' @ message error)))"

definition LocalStorage_saveTasks :: "string \<Rightarrow> BasicTask list \<Rightarrow> WebStorage \<Rightarrow> JsError + WebStorage" where
  "LocalStorage_saveTasks storageKey tasks ws =
     (case setItem ws storageKey (JSON_stringify tasks) of
        Inr ws' \<Rightarrow> Inr ws'
      | Inl error \<Rightarrow> Inl (JsError None (''Failed to save tasks: '' @ message error)))"

definition LocalStorage_clearTasks :: "string \<Rightarrow> WebStorage \<Rightarrow> JsError + WebStorage" where
  "LocalStorage_clearTasks storageKey ws =
     (case removeItem ws storageKey of
        Inr ws' \<Rightarrow> Inr ws'
      | Inl error \<Rightarrow> Inl (JsError None (''Failed to clear tasks: '' @ message error)))"

definition LocalStorage :: "string \<Rightarrow> WebStorage TaskStorage" where
  "LocalStorage storageKey =
     \<lparr>loadTasks = LocalStorage_loadTasks storageKey,
      saveTasks = LocalStorage_saveTasks storageKey,
      clearTasks = LocalStorage_clearTasks storageKey\<rparr>"

subsection \<open>In-memory storage\<close>

text \<open>The state is the private field \<open>tasks\<close>, initially \<open>[]\<close>; copies of the array hold
  the same tasks.\<close>

definition MemoryStorage :: "BasicTask list TaskStorage" where
  "MemoryStorage =
     \<lparr>loadTasks = (\<lambda>tasks. Inr tasks),
      saveTasks = (\<lambda>tasks _. Inr tasks),
      clearTasks = (\<lambda>_. Inr [])\<rparr>"

definition MemoryStorage_initial :: "BasicTask list" where
  "MemoryStorage_initial = []"

subsection \<open>API storage\<close>

text \<open>
  What \<open>fetch\<close> resolves or rejects with: a network failure, or a response with its
  \<open>ok\<close> flag, status text and body.
\<close>

datatype FetchResult = NetworkFailure JsError | Response (ok: bool) (statusText: string) (body: JsonText)

text \<open>
  The remote end, as far as the adapter can tell: a \<open>/tasks\<close> resource that stores what
  is \<open>PUT\<close> and returns it on \<open>GET\<close>, answers \<open>404 Not Found\<close> while the collection does
  not exist, and cannot be reached at all when a fault is set.
\<close>

record RestServer =
  collection :: "JsonText option"
  net_fault :: "JsError option"

definition fetch_GET :: "RestServer \<Rightarrow> FetchResult" where
  "fetch_GET server =
     (case net_fault server of
        Some e \<Rightarrow> NetworkFailure e
      | None \<Rightarrow> (case collection server of
                   None \<Rightarrow> Response False ''Not Found'' EmptyText
                 | Some data \<Rightarrow> Response True ''OK'' data))"

definition fetch_PUT :: "RestServer \<Rightarrow> JsonText \<Rightarrow> FetchResult \<times> RestServer" where
  "fetch_PUT server data =
     (case net_fault server of
        Some e \<Rightarrow> (NetworkFailure e, server)
      | None \<Rightarrow> (Response True ''OK'' EmptyText, server\<lparr>collection := Some data\<rparr>))"

definition fetch_DELETE :: "RestServer \<Rightarrow> FetchResult \<times> RestServer" where
  "fetch_DELETE server =
     (case net_fault server of
        Some e \<Rightarrow> (NetworkFailure e, server)
      | None \<Rightarrow> (case collection server of
                   None \<Rightarrow> (Response False ''Not Found'' EmptyText, server)
                 | Some _ \<Rightarrow> (Response True ''OK'' EmptyText, server\<lparr>collection := None\<rparr>)))"

text \<open>The body of \<open>ApiStorage.loadTasks\<close> after \<open>fetch\<close> has settled.\<close>

definition ApiStorage_loadTasks_from :: "FetchResult \<Rightarrow> JsError + BasicTask list" where
  "ApiStorage_loadTasks_from result =
     (case (case result of
              NetworkFailure e \<Rightarrow> Inl e
            | Response isOk stext data \<Rightarrow>
                if \<not> isOk then Inl (JsError None (''API request failed: '' @ stext))
                else (case JSON_parse data of
                        Inl e \<Rightarrow> Inl e
                      | Inr parsed \<Rightarrow> Inr (map hydrate parsed))) of
        Inr tasks \<Rightarrow> Inr tasks
      | Inl error \<Rightarrow> Inl (JsError None (''Failed to load tasks: '' @ message error)))"

definition ApiStorage_loadTasks :: "RestServer \<Rightarrow> JsError + BasicTask list" where
  "ApiStorage_loadTasks server = ApiStorage_loadTasks_from (fetch_GET server)"

text \<open>The body of \<open>ApiStorage.saveTasks\<close> after \<open>fetch\<close> has settled, for any outcome of
  the request (the server modelled above always accepts a \<open>PUT\<close> it receives; a real
  one may answer with a response that is not \<open>ok\<close>).\<close>

definition ApiStorage_saveTasks_from :: "FetchResult \<times> RestServer \<Rightarrow> JsError + RestServer" where
  "ApiStorage_saveTasks_from outcome =
     (case outcome of
        (NetworkFailure e, _) \<Rightarrow> Inl (JsError None (''Failed to save tasks: '' @ message e))
      | (Response isOk stext _, server') \<Rightarrow>
          if \<not> isOk
          then Inl (JsError None (''Failed to save tasks: '' @ (''API request failed: '' @ stext)))
          else Inr server')"

definition ApiStorage_saveTasks :: "BasicTask list \<Rightarrow> RestServer \<Rightarrow> JsError + RestServer" where
  "ApiStorage_saveTasks tasks server =
     ApiStorage_saveTasks_from (fetch_PUT server (JSON_stringify tasks))"

definition ApiStorage_clearTasks :: "RestServer \<Rightarrow> JsError + RestServer" where
  "ApiStorage_clearTasks server =
     (case fetch_DELETE server of
        (NetworkFailure e, _) \<Rightarrow> Inl (JsError None (''Failed to clear tasks: '' @ message e))
      | (Response isOk stext _, server') \<Rightarrow>
          if \<not> isOk
          then Inl (JsError None (''Failed to clear tasks: '' @ (''API request failed: '' @ stext)))
          else Inr server')"

definition ApiStorage :: "RestServer TaskStorage" where
  "ApiStorage =
     \<lparr>loadTasks = ApiStorage_loadTasks,
      saveTasks = ApiStorage_saveTasks,
      clearTasks = ApiStorage_clearTasks\<rparr>"

section \<open>validateTask on fields of another type\<close>

text \<open>
  The definitions above take a task that conforms to the \<open>Task\<close> interface. The source
  also tests \<open>typeof task.description\<close>, \<open>Array.isArray(task.dependencies)\<close> and
  \<open>Array.isArray(task.subtasks)\<close>, and later calls \<open>trim\<close> and \<open>filter\<close> on these three
  fields; on a value that has no such method the call throws a \<open>TypeError\<close>. Here the
  three fields may hold a value of another type: \<open>IllTyped b\<close> is such a value, \<open>b\<close> its
  truthiness (\<open>null\<close> and \<open>0\<close> are falsy; a non-zero number, an object, and for the two
  array fields a non-empty string, are truthy). The last three constructors of
  \<open>ValidationError\<close> are the messages "Task description must be a string", "Task
  dependencies must be an array" and "Task subtasks must be an array".
\<close>

datatype 'a Loose = Undefined | WellTyped 'a | IllTyped bool

record LooseTask =
  lt_id :: string
  lt_title :: string
  lt_description :: "string Loose"
  lt_status :: TaskStatus
  lt_priority :: TaskPriority
  lt_details :: "string option"
  lt_testStrategy :: "string option"
  lt_complexityScore :: "real option"
  lt_dependencies :: "string list Loose"
  lt_subtasks :: "Subtask list Loose"

text \<open>The well-typed content of a field, for the checks that run on it once its type
  test has passed.\<close>

definition wellTyped :: "'a Loose \<Rightarrow> 'a option" where
  "wellTyped v = (case v of WellTyped x \<Rightarrow> Some x | _ \<Rightarrow> None)"

definition typedPart :: "LooseTask \<Rightarrow> Task" where
  "typedPart task =
     \<lparr>task_id = lt_id task, title = lt_title task,
      description = wellTyped (lt_description task),
      status = lt_status task, priority = lt_priority task, details = lt_details task,
      dependencies = wellTyped (lt_dependencies task),
      complexityScore = lt_complexityScore task,
      subtasks = wellTyped (lt_subtasks task), testStrategy = lt_testStrategy task\<rparr>"

definition loosen :: "Task \<Rightarrow> LooseTask" where
  "loosen task =
     \<lparr>lt_id = task_id task, lt_title = title task,
      lt_description = (case description task of None \<Rightarrow> Undefined | Some d \<Rightarrow> WellTyped d),
      lt_status = status task, lt_priority = priority task,
      lt_details = details task, lt_testStrategy = testStrategy task,
      lt_complexityScore = complexityScore task,
      lt_dependencies = (case dependencies task of None \<Rightarrow> Undefined | Some ds \<Rightarrow> WellTyped ds),
      lt_subtasks = (case subtasks task of None \<Rightarrow> Undefined | Some sts \<Rightarrow> WellTyped sts)\<rparr>"

text \<open>Truthiness: \<open>undefined\<close> is falsy, an array is truthy, a string is truthy unless it
  is empty.\<close>

definition truthyString :: "string Loose \<Rightarrow> bool" where
  "truthyString v = (case v of Undefined \<Rightarrow> False | WellTyped s \<Rightarrow> s \<noteq> [] | IllTyped b \<Rightarrow> b)"

definition truthyArray :: "'a list Loose \<Rightarrow> bool" where
  "truthyArray v = (case v of Undefined \<Rightarrow> False | WellTyped xs \<Rightarrow> True | IllTyped b \<Rightarrow> b)"

text \<open>
  \<open>validateTask\<close> with its three throwing calls. An exception abandons the errors
  collected so far, so the calls are tested first, in the order the source reaches
  them: \<open>task.description.trim()\<close> in the priority rule (evaluated when the description
  is truthy), \<open>task.dependencies.filter\<close> in the in-progress check, \<open>task.subtasks.filter\<close>
  in the done check. Otherwise the result is built as for a typed task, with the error of
  each failed type test in the place where the source pushes it.
\<close>

definition validateTask_loose :: "LooseTask \<Rightarrow> ValidationOptions \<Rightarrow> JsError + ValidationResult" where
  "validateTask_loose task options =
     (let required = orDefault (requireDescriptionForPriority options) [''high''];
          maxTitle = orDefault (maxTitleLength options) 100;
          minTitle = orDefault (minTitleLength options) 1;
          maxDescription = orDefault (maxDescriptionLength options) 1000;
          pat = orDefault (idPattern options) defaultIdPattern;
          allowEmpty = orDefault (allowEmptySubtasks options) False;
          existing = orDefault (existingTasks options) [];
          t = typedPart task
      in if lt_priority task \<in> set required \<and> lt_description task = IllTyped True then
           Inl (JsError None ''task.description.trim is not a function'')
         else if lt_status task = ''in-progress'' \<and> lt_dependencies task = IllTyped True \<and>
                 length existing > 0 then
           Inl (JsError None ''task.dependencies.filter is not a function'')
         else if lt_status task = ''done'' \<and> lt_subtasks task = IllTyped True then
           Inl (JsError None ''task.subtasks.filter is not a function'')
         else
           (let errs =
                  idErrors t pat @ titleErrors t minTitle maxTitle @
                  (case lt_description task of
                     IllTyped _ \<Rightarrow> [DescriptionNotString]
                   | _ \<Rightarrow> descriptionErrors t maxDescription) @
                  statusErrors t @ priorityErrors t @
                  (if lt_priority task \<in> set required then
                     (if \<not> truthyString (lt_description task) \<or> descriptionMissing t
                      then [DescriptionRequired (lt_priority task)] else [])
                   else []) @
                  complexityErrors t @
                  (case lt_dependencies task of
                     IllTyped b \<Rightarrow> if b then [DependenciesNotArray] else []
                   | _ \<Rightarrow> dependencyErrors t pat existing) @
                  (case lt_subtasks task of
                     IllTyped b \<Rightarrow> if b then [SubtasksNotArray] else []
                   | _ \<Rightarrow> subtaskErrors t);
                warns = titleWarnings t @ dependencyWarnings t @ subtaskWarnings t allowEmpty @
                        workflowWarnings t existing
            in Inr \<lparr>isValid = (length errs = 0), errors = errs, warnings = warns\<rparr>))"

section \<open>Identifier generation\<close>

text \<open>
  \<open>Number.prototype.toString(radix)\<close> on a non-negative integer: its digits in the
  radix, most significant first, from \<open>0\<close>-\<open>9\<close> and \<open>a\<close>-\<open>z\<close>. Counters and time stamps are
  natural numbers here (a JavaScript number is exact up to \<open>2^53\<close>).
\<close>

definition digitChars :: string where
  "digitChars = ''0123456789abcdefghijklmnopqrstuvwxyz''"

function numberToString :: "nat \<Rightarrow> nat \<Rightarrow> string" where
  "numberToString radix n =
     (if n < radix \<or> radix < 2 then [digitChars ! n]
      else numberToString radix (n div radix) @ [digitChars ! (n mod radix)])"
  by pat_completeness auto
termination numberToString
  by (relation "measure (\<lambda>(radix, n). n)") auto

declare numberToString.simps [simp del]

text \<open>
  \<open>generateId\<close> of the helpers: \<open>Date.now().toString(36)\<close>, a dash, and
  \<open>Math.random().toString(36).substr(2, 5)\<close>, the first five of the base-36 digits after
  \<open>"0."\<close>. The clock and the random digits are inputs; the task list is not.
\<close>

definition generateId :: "nat \<Rightarrow> string \<Rightarrow> string" where
  "generateId now randomDigits = numberToString 36 now @ ''-'' @ take 5 randomDigits"

text \<open>
  \<open>generateTaskId\<close> of the validation utilities: the \<open>while\<close> loop that counts up from 1
  until the decimal text of the counter is not among the existing identifiers.
\<close>

lemma numberToString_nonempty: "numberToString radix n \<noteq> []"
  by (subst numberToString.simps) simp

lemma numberToString_small: "n < radix \<Longrightarrow> numberToString radix n = [digitChars ! n]"
  by (subst numberToString.simps) simp

lemma numberToString_large:
  "\<not> n < radix \<Longrightarrow> 2 \<le> radix \<Longrightarrow>
   numberToString radix n = numberToString radix (n div radix) @ [digitChars ! (n mod radix)]"
  by (subst numberToString.simps) auto

lemma distinct_digitChars: "distinct digitChars"
  by (simp add: digitChars_def)

lemma length_digitChars: "length digitChars = 36"
  by (simp add: digitChars_def)

lemma digitChars_inject:
  "i < 36 \<Longrightarrow> j < 36 \<Longrightarrow> digitChars ! i = digitChars ! j \<Longrightarrow> i = j"
  using nth_eq_iff_index_eq[OF distinct_digitChars, of i j] by (simp add: length_digitChars)

lemma numberToString_inject:
  "2 \<le> radix \<Longrightarrow> radix \<le> 36 \<Longrightarrow>
   numberToString radix m = numberToString radix n \<Longrightarrow> m = n"
proof (induction radix m arbitrary: n rule: numberToString.induct)
  case (1 radix m)
  note radix = "1.prems"(1,2) and eq = "1.prems"(3)
  show ?case
  proof (cases "m < radix")
    case True
    then have m: "numberToString radix m = [digitChars ! m]"
      by (rule numberToString_small)
    have "n < radix"
    proof (rule ccontr)
      assume "\<not> n < radix"
      then have "numberToString radix n =
                 numberToString radix (n div radix) @ [digitChars ! (n mod radix)]"
        using radix(1) by (rule numberToString_large)
      with eq m numberToString_nonempty[of radix "n div radix"] show False
        by (cases "numberToString radix (n div radix)") simp_all
    qed
    then have "numberToString radix n = [digitChars ! n]"
      by (rule numberToString_small)
    with eq m have "digitChars ! m = digitChars ! n" by simp
    with True \<open>n < radix\<close> radix show ?thesis
      by (intro digitChars_inject) simp_all
  next
    case False
    then have m: "numberToString radix m =
                  numberToString radix (m div radix) @ [digitChars ! (m mod radix)]"
      using radix(1) by (rule numberToString_large)
    have "\<not> n < radix"
    proof
      assume "n < radix"
      then have "numberToString radix n = [digitChars ! n]"
        by (rule numberToString_small)
      with eq m numberToString_nonempty[of radix "m div radix"] show False
        by (cases "numberToString radix (m div radix)") simp_all
    qed
    then have n: "numberToString radix n =
                  numberToString radix (n div radix) @ [digitChars ! (n mod radix)]"
      using radix(1) by (rule numberToString_large)
    from eq m n have high: "numberToString radix (m div radix) = numberToString radix (n div radix)"
      and low: "digitChars ! (m mod radix) = digitChars ! (n mod radix)"
      by simp_all
    from False radix have "\<not> (m < radix \<or> radix < 2)" by simp
    from "1.IH"[OF this radix high] have d: "m div radix = n div radix" .
    have "m mod radix < 36" "n mod radix < 36"
      using radix by (simp_all add: less_le_trans[OF mod_less_divisor])
    with low have "m mod radix = n mod radix" by (rule digitChars_inject[rotated 2])
    with d show ?thesis by (metis div_mult_mod_eq)
  qed
qed

lemma inj_decimal: "inj (numberToString 10)"
  by (rule injI) (rule numberToString_inject[of 10], simp_all)

function nextFreeId :: "string list \<Rightarrow> nat \<Rightarrow> nat" where
  "nextFreeId existingIds nextId =
     (if numberToString 10 nextId \<in> set existingIds
      then nextFreeId existingIds (nextId + 1) else nextId)"
  by pat_completeness auto

lemma finite_taken_from: "finite {k. n \<le> k \<and> numberToString 10 k \<in> set ids}"
proof -
  have "finite (numberToString 10 -` set ids)"
    by (rule finite_vimageI[OF _ inj_decimal]) simp
  then show ?thesis by (rule rev_finite_subset) auto
qed

termination nextFreeId
proof (relation "measure (\<lambda>(ids, n). card {k. n \<le> k \<and> numberToString 10 k \<in> set ids})", goal_cases)
  case 1
  show ?case by simp
next
  case (2 existingIds nextId)
  have "nextId \<in> {k. nextId \<le> k \<and> numberToString 10 k \<in> set existingIds}"
    using 2 by simp
  moreover have "nextId \<notin> {k. nextId + 1 \<le> k \<and> numberToString 10 k \<in> set existingIds}"
    by simp
  moreover have "{k. nextId + 1 \<le> k \<and> numberToString 10 k \<in> set existingIds}
        \<subseteq> {k. nextId \<le> k \<and> numberToString 10 k \<in> set existingIds}"
    by auto
  ultimately have "{k. nextId + 1 \<le> k \<and> numberToString 10 k \<in> set existingIds}
        \<subset> {k. nextId \<le> k \<and> numberToString 10 k \<in> set existingIds}"
    by blast
  then show ?case
    using psubset_card_mono[OF finite_taken_from] by simp
qed

declare nextFreeId.simps [simp del]

definition generateTaskId :: "Task list \<Rightarrow> string" where
  "generateTaskId existing =
     (let existingIds = sort (map task_id existing)
      in numberToString 10 (nextFreeId existingIds 1))"

section \<open>The basic template's validation helper and hook (helpers.ts, useSimpleTasks.ts)\<close>

text \<open>
  \<open>validateTask\<close> of the helpers reads a \<open>Partial<Task>\<close>: every field may be absent.
  Its status and priority checks cannot fail on a value of the declared types, so only
  the title and description checks produce errors.
\<close>

record PartialTask =
  pt_title :: "string option"
  pt_description :: "string option"
  pt_status :: "BasicStatus option"
  pt_priority :: "BasicPriority option"

record HelperValidationResult =
  hv_isValid :: bool
  hv_errors :: "string list"

definition helpers_validateTask :: "PartialTask \<Rightarrow> HelperValidationResult" where
  "helpers_validateTask task =
     (let errs =
            (case pt_title task of
               None \<Rightarrow> [''Title is required'']
             | Some t \<Rightarrow>
                 if t = [] then [''Title is required'']
                 else if length (trim t) = 0 then [''Title cannot be empty'']
                 else if length t > 200 then [''Title must be less than 200 characters'']
                 else []) @
            (case pt_description task of
               None \<Rightarrow> []
             | Some d \<Rightarrow>
                 if length d > 1000 then [''Description must be less than 1000 characters'']
                 else [])
      in \<lparr>hv_isValid = (length errs = 0), hv_errors = errs\<rparr>)"

text \<open>\<open>Array.prototype.join\<close>.\<close>

fun joinWith :: "string \<Rightarrow> string list \<Rightarrow> string" where
  "joinWith sep [] = []"
| "joinWith sep [x] = x"
| "joinWith sep (x # y # ys) = x @ sep @ joinWith sep (y # ys)"

text \<open>\<open>CreateTaskData\<close> is a task without \<open>id\<close>, \<open>createdAt\<close> and \<open>updatedAt\<close>.\<close>

record CreateTaskData =
  c_title :: string
  c_description :: "string option"
  c_status :: BasicStatus
  c_priority :: BasicPriority

text \<open>
  The state of \<open>useSimpleTasks\<close> that its operations change (filters and sort options
  are left out), next to the state \<open>'w\<close> of the storage medium. \<open>CONFIG.ui.autoSave\<close> is
  \<open>true\<close> in the basic configuration.
\<close>

record HookState =
  h_tasks :: "BasicTask list"
  h_isLoading :: bool
  h_error :: "string option"

definition autoSave :: bool where
  "autoSave = True"

text \<open>\<open>saveTasksToStorage\<close> catches the adapter's error, logs it and records a message;
  it never throws and never touches \<open>tasks\<close>.\<close>

definition saveTasksToStorage :: "'w TaskStorage \<Rightarrow> BasicTask list \<Rightarrow> HookState \<times> 'w \<Rightarrow> HookState \<times> 'w" where
  "saveTasksToStorage storage tasksToSave = (\<lambda>(st, w).
     case saveTasks storage tasksToSave w of
       Inr w' \<Rightarrow> (st, w')
     | Inl err \<Rightarrow> (st\<lparr>h_error := Some ''Failed to save tasks''\<rparr>, w))"


text \<open>
  \<open>createTask\<close> and \<open>deleteTask\<close> return the message of the error they throw, if any,
  with the states they leave behind. The clock is read for the identifier and for the
  two timestamps.
\<close>

text \<open>The record \<open>createTask\<close> builds:
  \<open>{...data, id: generateId(), createdAt: new Date(), updatedAt: new Date()}\<close>.\<close>

definition newTask :: "CreateTaskData \<Rightarrow> nat \<Rightarrow> string \<Rightarrow> BasicTask" where
  "newTask data now randomDigits =
     \<lparr>b_id = generateId now randomDigits, b_title = c_title data,
      b_description = c_description data, b_status = c_status data,
      b_priority = c_priority data,
      createdAt = DateOf (int now), updatedAt = DateOf (int now)\<rparr>"

definition createTask ::
  "'w TaskStorage \<Rightarrow> CreateTaskData \<Rightarrow> nat \<Rightarrow> string \<Rightarrow> HookState \<times> 'w \<Rightarrow> string option \<times> HookState \<times> 'w" where
  "createTask storage data now randomDigits = (\<lambda>(st, w).
     let st1 = st\<lparr>h_error := None\<rparr>;
         validation = helpers_validateTask
           \<lparr>pt_title = Some (c_title data), pt_description = c_description data,
            pt_status = Some (c_status data), pt_priority = Some (c_priority data)\<rparr>
     in if \<not> hv_isValid validation then
          (let errorMessage = joinWith '', '' (hv_errors validation)
           in (Some errorMessage, st1\<lparr>h_error := Some errorMessage\<rparr>, w))
        else
          (let updatedTasks = h_tasks st @ [newTask data now randomDigits];
               st2 = st1\<lparr>h_tasks := updatedTasks\<rparr>
           in if autoSave
              then (case saveTasksToStorage storage updatedTasks (st2, w) of (st3, w') \<Rightarrow> (None, st3, w'))
              else (None, st2, w)))"

definition deleteTask ::
  "'w TaskStorage \<Rightarrow> string \<Rightarrow> HookState \<times> 'w \<Rightarrow> string option \<times> HookState \<times> 'w" where
  "deleteTask storage taskId = (\<lambda>(st, w).
     let st1 = st\<lparr>h_error := None\<rparr>;
         taskExists = (\<exists>t \<in> set (h_tasks st). b_id t = taskId)
     in if \<not> taskExists then
          (let errorMessage = ''Task with id '' @ taskId @ '' not found''
           in (Some errorMessage, st1\<lparr>h_error := Some errorMessage\<rparr>, w))
        else
          (let updatedTasks = filter (\<lambda>t. b_id t \<noteq> taskId) (h_tasks st);
               st2 = st1\<lparr>h_tasks := updatedTasks\<rparr>
           in if autoSave
              then (case saveTasksToStorage storage updatedTasks (st2, w) of (st3, w') \<Rightarrow> (None, st3, w'))
              else (None, st2, w)))"

section \<open>Example data\<close>

text \<open>Concrete tasks on which the theorems below are instantiated.\<close>

definition exampleTask :: "string \<Rightarrow> TaskPriority \<Rightarrow> string list option \<Rightarrow> Task" where
  "exampleTask i p deps =
     \<lparr>task_id = i, title = ''Write report'', description = None, status = ''pending'',
      priority = p, details = None, dependencies = deps, complexityScore = None,
      subtasks = None, testStrategy = None\<rparr>"


definition blankTask :: "TaskPriority \<Rightarrow> Task" where
  "blankTask p =
     \<lparr>task_id = ''1'', title = ''Write report'',
      description = Some [CHR '' '', CHR 0x09, CHR 0x0A, CHR 0xA0], status = ''pending'',
      priority = p, details = None, dependencies = None, complexityScore = None,
      subtasks = None, testStrategy = None\<rparr>"

definition basicTask :: "string \<Rightarrow> BasicPriority \<Rightarrow> BasicTask" where
  "basicTask i p =
     \<lparr>b_id = i, b_title = ''Write report'', b_description = None, b_status = Todo,
      b_priority = p, createdAt = DateOf 1700000000000, updatedAt = DateOf 1700000000000\<rparr>"

definition exampleData :: CreateTaskData where
  "exampleData = \<lparr>c_title = ''Write report'', c_description = None, c_status = Todo, c_priority = Medium\<rparr>"

definition hookState :: "BasicTask list \<Rightarrow> HookState" where
  "hookState ts = \<lparr>h_tasks = ts, h_isLoading = False, h_error = None\<rparr>"

definition emptyDisk :: FileSystem where
  "emptyDisk = \<lparr>files = Map.empty, fs_fault = None\<rparr>"

definition emptyWebStorage :: WebStorage where
  "emptyWebStorage = \<lparr>items = Map.empty, ws_fault = None\<rparr>"

definition freshServer :: RestServer where
  "freshServer = \<lparr>collection = None, net_fault = None\<rparr>"

definition undatedTask :: BasicTask where
  "undatedTask =
     \<lparr>b_id = ''a'', b_title = ''Write report'', b_description = None, b_status = Todo,
      b_priority = Low, createdAt = InvalidDate, updatedAt = DateOf 1700000000000\<rparr>"




section \<open>Status transitions\<close>

text \<open>
  Claim C10. The status-transition table never permits a self-transition and is closed
  over the status enumeration: for every status \<open>s\<close> that is a key of \<open>STATUS_CONFIG\<close>,
  \<open>isValidTransition s s\<close> is false, and every status listed in the \<open>canTransitionTo\<close>
  set of \<open>s\<close> is itself a key of \<open>STATUS_CONFIG\<close>.
\<close>

theorem status_table_irreflexive_closed:
  "\<forall>s \<in> set (map fst STATUS_CONFIG).
     \<not> isValidTransition s s \<and>
     (\<forall>t \<in> set (getValidTransitions s). t \<in> set (map fst STATUS_CONFIG))"
  by (simp add: STATUS_CONFIG_def getValidTransitions_def isValidTransition_def)

theorem status_table_irreflexive_closed_witness:
  "''review'' \<in> set (map fst STATUS_CONFIG) \<and>
   \<not> isValidTransition ''review'' ''review'' \<and>
   getValidTransitions ''review'' = [''done'', ''in-progress''] \<and>
   ''done'' \<in> set (map fst STATUS_CONFIG) \<and> ''in-progress'' \<in> set (map fst STATUS_CONFIG)"
proof -
  have k: "''review'' \<in> set (map fst STATUS_CONFIG)"
    by (simp add: STATUS_CONFIG_def)
  have g: "getValidTransitions ''review'' = [''done'', ''in-progress'']"
    by (simp add: STATUS_CONFIG_def getValidTransitions_def)
  from status_table_irreflexive_closed k
  have "\<not> isValidTransition ''review'' ''review'' \<and>
     (\<forall>t \<in> set (getValidTransitions ''review''). t \<in> set (map fst STATUS_CONFIG))"
    by blast
  with k g show ?thesis by simp
qed

section \<open>Properties of the cycle detector\<close>

lemma dom_taskMapOf: "dom (taskMapOf tasks) = task_id ` set tasks"
  by (force simp: taskMapOf_def dom_map_of_conv_image_fst)

lemma dfs_cycles_known:
  "set path \<subseteq> dom (taskMapOf tasks) \<Longrightarrow> (\<forall>c \<in> set (cycles s). set c \<subseteq> dom (taskMapOf tasks)) \<Longrightarrow>
   (\<forall>c \<in> set (cycles (dfs tasks taskId path s)). set c \<subseteq> dom (taskMapOf tasks))"
  "set path \<subseteq> dom (taskMapOf tasks) \<Longrightarrow> (\<forall>c \<in> set (cycles s). set c \<subseteq> dom (taskMapOf tasks)) \<Longrightarrow>
   (\<forall>c \<in> set (cycles (dfs_forEach tasks deps path s)). set c \<subseteq> dom (taskMapOf tasks))"
proof (induction tasks taskId path s and tasks deps path s rule: dfs_dfs_forEach.induct)
  case (1 tasks taskId path s)
  show ?case
  proof (cases "taskId \<in> recursionStack s")
    case True
    have "set (drop i path) \<subseteq> dom (taskMapOf tasks)" for i
      using "1.prems"(1) set_drop_subset[of i path] by blast
    with True "1.prems"(2) show ?thesis
      by (auto simp: dfs.simps split: option.splits)
  next
    case False
    note nstack = this
    show ?thesis
    proof (cases "taskId \<in> visited s")
      case True
      with nstack "1.prems"(2) show ?thesis by (simp add: dfs.simps)
    next
      case False
      with nstack "1.prems" "1.IH" show ?thesis
        by (simp add: dfs.simps Let_def split: option.splits)
    qed
  qed
next
  case (2 tasks path s)
  then show ?case by simp
next
  case (3 tasks depId rest path s)
  show ?case
  proof (cases "taskMapOf tasks depId \<noteq> None")
    case True
    then have "set (path @ [depId]) \<subseteq> dom (taskMapOf tasks)"
      using "3.prems"(1) by auto
    with True "3.IH"(1) "3.prems"(2)
    have "\<forall>c \<in> set (cycles (dfs tasks depId (path @ [depId]) s)). set c \<subseteq> dom (taskMapOf tasks)"
      by blast
    with True "3.IH"(2) "3.prems"(1) show ?thesis by simp
  next
    case False
    with "3.IH"(2) "3.prems" show ?thesis by simp
  qed
qed

lemma chain_reaches_last:
  "successively R (xs @ [y]) \<Longrightarrow> x \<in> set xs \<Longrightarrow> (x, y) \<in> {(a, b). R a b}\<^sup>+"
proof (induction xs arbitrary: x)
  case Nil
  then show ?case by simp
next
  case outer: (Cons a xs)
  show ?case
  proof (cases xs)
    case Nil
    with outer.prems show ?thesis by auto
  next
    case (Cons b ys)
    with outer.prems(1) have ab: "R a b" and rest: "successively R (xs @ [y])"
      by simp_all
    have "b \<in> set xs" using Cons by simp
    with outer.IH rest have b_y: "(b, y) \<in> {(a, b). R a b}\<^sup>+" by blast
    from ab have "(a, b) \<in> {(a, b). R a b}" by simp
    from this b_y have a_y: "(a, y) \<in> {(a, b). R a b}\<^sup>+"
      by (rule trancl_into_trancl2)
    from outer.prems(2) outer.IH rest a_y show ?thesis by auto
  qed
qed

lemma dfs_acyclic:
  "acyclic (dependencyGraph tasks) \<Longrightarrow> path \<noteq> [] \<Longrightarrow> last path = taskId \<Longrightarrow>
   successively (dependsOn tasks) path \<Longrightarrow> recursionStack s \<subseteq> set (butlast path) \<Longrightarrow>
   cycles s = [] \<Longrightarrow>
   cycles (dfs tasks taskId path s) = [] \<and> recursionStack (dfs tasks taskId path s) \<subseteq> recursionStack s"
  "acyclic (dependencyGraph tasks) \<Longrightarrow> path \<noteq> [] \<Longrightarrow> successively (dependsOn tasks) path \<Longrightarrow>
   (\<exists>task alldeps. taskMapOf tasks (last path) = Some task \<and> dependencies task = Some alldeps \<and>
        set deps \<subseteq> set alldeps) \<Longrightarrow>
   recursionStack s \<subseteq> set path \<Longrightarrow> cycles s = [] \<Longrightarrow>
   cycles (dfs_forEach tasks deps path s) = [] \<and> recursionStack (dfs_forEach tasks deps path s) \<subseteq> recursionStack s"
proof (induction tasks taskId path s and tasks deps path s rule: dfs_dfs_forEach.induct)
  case (1 tasks taskId path s)
  have path_eq: "path = butlast path @ [taskId]"
    using "1.prems"(2,3) by (metis append_butlast_last_id)
  have nstack: "taskId \<notin> recursionStack s"
  proof
    assume "taskId \<in> recursionStack s"
    with "1.prems"(5) have "taskId \<in> set (butlast path)" by blast
    moreover have "successively (dependsOn tasks) (butlast path @ [taskId])"
      using "1.prems"(4) path_eq by simp
    ultimately have "(taskId, taskId) \<in> (dependencyGraph tasks)\<^sup>+"
      unfolding dependencyGraph_def by (rule chain_reaches_last[rotated])
    with "1.prems"(1) show False by (simp add: acyclic_def)
  qed
  show ?case
  proof (cases "taskId \<in> visited s")
    case True
    with nstack "1.prems"(6) show ?thesis by (simp add: dfs.simps)
  next
    case False
    let ?s1 = "s\<lparr>visited := insert taskId (visited s),
                  recursionStack := insert taskId (recursionStack s)\<rparr>"
    have stack1: "recursionStack ?s1 \<subseteq> set path"
    proof -
      have "set (butlast path) \<subseteq> set path" by (metis path_eq set_append sup_ge1)
      moreover have "taskId \<in> set path" using "1.prems"(2,3) by auto
      ultimately show ?thesis using "1.prems"(5) by auto
    qed
    show ?thesis
    proof (cases "taskMapOf tasks taskId")
      case None
      with nstack False "1.prems"(6) show ?thesis
        by (auto simp: dfs.simps Let_def)
    next
      case (Some task)
      show ?thesis
      proof (cases "dependencies task")
        case None
        with Some nstack False "1.prems"(6) show ?thesis
          by (auto simp: dfs.simps Let_def)
      next
        case (Some deps)
        have "cycles (dfs_forEach tasks deps path ?s1) = [] \<and>
              recursionStack (dfs_forEach tasks deps path ?s1) \<subseteq> recursionStack ?s1"
          using "1.IH"[OF nstack False refl \<open>taskMapOf tasks taskId = Some task\<close> Some
                "1.prems"(1,2,4)] "1.prems"(3,6) \<open>taskMapOf tasks taskId = Some task\<close> Some stack1
          by auto
        with \<open>taskMapOf tasks taskId = Some task\<close> Some nstack False show ?thesis
          by (auto simp: dfs.simps Let_def)
      qed
    qed
  qed
next
  case (2 tasks path s)
  then show ?case by simp
next
  case (3 tasks depId rest path s)
  from "3.prems"(4) obtain task alldeps where
    t: "taskMapOf tasks (last path) = Some task" "dependencies task = Some alldeps"
       "set (depId # rest) \<subseteq> set alldeps"
    by blast
  let ?s' = "if taskMapOf tasks depId \<noteq> None then dfs tasks depId (path @ [depId]) s else s"
  have mid: "cycles ?s' = [] \<and> recursionStack ?s' \<subseteq> recursionStack s"
  proof (cases "taskMapOf tasks depId \<noteq> None")
    case True
    have "dependsOn tasks (last path) depId"
      using t True by (auto simp: dependsOn_def)
    then have chain: "successively (dependsOn tasks) (path @ [depId])"
      using "3.prems"(2,3) by (simp add: successively_append_iff)
    have "cycles (dfs tasks depId (path @ [depId]) s) = [] \<and>
          recursionStack (dfs tasks depId (path @ [depId]) s) \<subseteq> recursionStack s"
      using "3.IH"(1)[OF True "3.prems"(1) _ _ chain] "3.prems"(5,6) by simp
    with True show ?thesis by simp
  next
    case False
    with "3.prems"(6) show ?thesis by simp
  qed
  have "cycles (dfs_forEach tasks rest path ?s') = [] \<and>
        recursionStack (dfs_forEach tasks rest path ?s') \<subseteq> recursionStack ?s'"
  proof (rule "3.IH"(2)[OF "3.prems"(1,2,3)])
    show "\<exists>task alldeps. taskMapOf tasks (last path) = Some task \<and>
        dependencies task = Some alldeps \<and> set rest \<subseteq> set alldeps"
      using t by auto
    show "recursionStack ?s' \<subseteq> set path" using mid "3.prems"(5) by blast
    show "cycles ?s' = []" using mid by blast
  qed
  with mid show ?case by auto
qed


lemma visitAll_cycles_known:
  "set ts \<subseteq> set tasks \<Longrightarrow> (\<forall>c \<in> set (cycles s). set c \<subseteq> dom (taskMapOf tasks)) \<Longrightarrow>
   (\<forall>c \<in> set (cycles (visitAll tasks ts s)). set c \<subseteq> dom (taskMapOf tasks))"
proof (induction ts arbitrary: s)
  case Nil
  then show ?case by (simp add: visitAll_def)
next
  case (Cons t ts)
  let ?s' = "if task_id t \<notin> visited s then dfs tasks (task_id t) [task_id t] s else s"
  have "task_id t \<in> dom (taskMapOf tasks)"
    using Cons.prems(1) by (simp add: dom_taskMapOf)
  then have "set [task_id t] \<subseteq> dom (taskMapOf tasks)" by simp
  from dfs_cycles_known(1)[OF this Cons.prems(2)] Cons.prems(2)
  have "\<forall>c \<in> set (cycles ?s'). set c \<subseteq> dom (taskMapOf tasks)" by simp
  with Cons.IH[of ?s'] Cons.prems(1)
  have "\<forall>c \<in> set (cycles (visitAll tasks ts ?s')). set c \<subseteq> dom (taskMapOf tasks)" by simp
  then show ?case by (simp add: visitAll_def)
qed

lemma visitAll_acyclic:
  "acyclic (dependencyGraph tasks) \<Longrightarrow> recursionStack s = {} \<Longrightarrow> cycles s = [] \<Longrightarrow>
   cycles (visitAll tasks ts s) = []"
proof (induction ts arbitrary: s)
  case Nil
  then show ?case by (simp add: visitAll_def)
next
  case (Cons t ts)
  let ?s' = "if task_id t \<notin> visited s then dfs tasks (task_id t) [task_id t] s else s"
  have "cycles (dfs tasks (task_id t) [task_id t] s) = [] \<and>
        recursionStack (dfs tasks (task_id t) [task_id t] s) \<subseteq> recursionStack s"
    using Cons.prems by (intro dfs_acyclic(1)) simp_all
  with Cons.prems have "recursionStack ?s' = {}" "cycles ?s' = []" by auto
  with Cons.IH[of ?s'] Cons.prems(1) have "cycles (visitAll tasks ts ?s') = []" by blast
  then show ?case by (simp add: visitAll_def)
qed

section \<open>Validation\<close>

lemma validateTask_errors:
  "errors (validateTask task options) =
     idErrors task (orDefault (idPattern options) defaultIdPattern) @
     titleErrors task (orDefault (minTitleLength options) 1) (orDefault (maxTitleLength options) 100) @
     descriptionErrors task (orDefault (maxDescriptionLength options) 1000) @
     statusErrors task @ priorityErrors task @
     descriptionRequiredErrors task (orDefault (requireDescriptionForPriority options) [''high'']) @
     complexityErrors task @
     dependencyErrors task (orDefault (idPattern options) defaultIdPattern)
       (orDefault (existingTasks options) []) @
     subtaskErrors task"
  by (simp add: validateTask_def Let_def)

lemma validateTask_isValid: "isValid (validateTask task options) = (errors (validateTask task options) = [])"
  by (simp add: validateTask_def Let_def)

lemma section_errors_priority_free:
  "idErrors (task\<lparr>priority := p\<rparr>) pat = idErrors task pat"
  "titleErrors (task\<lparr>priority := p\<rparr>) lo hi = titleErrors task lo hi"
  "descriptionErrors (task\<lparr>priority := p\<rparr>) m = descriptionErrors task m"
  "statusErrors (task\<lparr>priority := p\<rparr>) = statusErrors task"
  "complexityErrors (task\<lparr>priority := p\<rparr>) = complexityErrors task"
  "dependencyErrors (task\<lparr>priority := p\<rparr>) pat ex = dependencyErrors task pat ex"
  "subtaskErrors (task\<lparr>priority := p\<rparr>) = subtaskErrors task"
  by (simp_all add: idErrors_def titleErrors_def descriptionErrors_def statusErrors_def
      complexityErrors_def dependencyErrors_def subtaskErrors_def split: option.splits)

lemma idErrors_only: "\<forall>e \<in> set (idErrors task pat). e = DescriptionRequired p \<Longrightarrow> idErrors task pat = []"
  by (auto simp: idErrors_def split: if_splits)

lemma titleErrors_only:
  "\<forall>e \<in> set (titleErrors task lo hi). e = DescriptionRequired p \<Longrightarrow> titleErrors task lo hi = []"
  by (auto simp: titleErrors_def split: if_splits)

lemma descriptionErrors_only:
  "\<forall>e \<in> set (descriptionErrors task m). e = DescriptionRequired p \<Longrightarrow> descriptionErrors task m = []"
  by (auto simp: descriptionErrors_def split: if_splits option.splits)

lemma statusErrors_only:
  "\<forall>e \<in> set (statusErrors task). e = DescriptionRequired p \<Longrightarrow> statusErrors task = []"
  by (auto simp: statusErrors_def split: if_splits)

lemma complexityErrors_only:
  "\<forall>e \<in> set (complexityErrors task). e = DescriptionRequired p \<Longrightarrow> complexityErrors task = []"
  by (auto simp: complexityErrors_def split: if_splits option.splits)

lemma dependencyErrors_only:
  "\<forall>e \<in> set (dependencyErrors task pat ex). e = DescriptionRequired p \<Longrightarrow>
   dependencyErrors task pat ex = []"
  by (cases "dependencies task")
     (auto simp: dependencyErrors_def Let_def filter_empty_conv split: if_splits)

lemma subtaskErrors_only:
  "\<forall>e \<in> set (subtaskErrors task). e = DescriptionRequired p \<Longrightarrow> subtaskErrors task = []"
proof (cases "subtasks task")
  case None
  then show ?thesis by (simp add: subtaskErrors_def)
next
  case (Some sts)
  assume only: "\<forall>e \<in> set (subtaskErrors task). e = DescriptionRequired p"
  let ?per = "\<lambda>(index, subtask). map (SubtaskError (index + 1)) (validateSubtask subtask (task_id task) index)"
  have "\<forall>x \<in> set (enumerate 0 sts). ?per x = []"
  proof
    fix x assume x: "x \<in> set (enumerate 0 sts)"
    obtain i st where [simp]: "x = (i, st)" by (cases x)
    show "?per x = []"
    proof (cases "validateSubtask st (task_id task) i")
      case Nil
      then show ?thesis by simp
    next
      case (Cons e es)
      then have "SubtaskError (i + 1) e \<in> set (subtaskErrors task)"
        using x Some by (force simp: subtaskErrors_def)
      with only show ?thesis by auto
    qed
  qed
  then have "concat (map ?per (enumerate 0 sts)) = []" by simp
  moreover have "distinct (map subtask_id sts)"
  proof (rule ccontr)
    assume "\<not> distinct (map subtask_id sts)"
    then have "DuplicateSubtaskIds \<in> set (subtaskErrors task)"
      using Some by (simp add: subtaskErrors_def Let_def)
    with only show False by auto
  qed
  ultimately show ?thesis using Some by (simp add: subtaskErrors_def Let_def)
qed

text \<open>
  The test the validator applies, \<open>!task.description || task.description.trim().length
  === 0\<close>, holds exactly when the description is absent or made of white space only.
\<close>

lemma trim_empty_iff: "(trim s = []) = (\<forall>c \<in> set s. isWhiteSpace c)"
proof
  assume "trim s = []"
  then have "dropWhile isWhiteSpace (rev (dropWhile isWhiteSpace s)) = []"
    by (simp add: trim_def)
  then have all: "\<forall>c \<in> set (dropWhile isWhiteSpace s). isWhiteSpace c"
    by (simp add: dropWhile_eq_Nil_conv)
  have "dropWhile isWhiteSpace s = []"
  proof (rule ccontr)
    assume ne: "dropWhile isWhiteSpace s \<noteq> []"
    then have "\<not> isWhiteSpace (hd (dropWhile isWhiteSpace s))" by (rule hd_dropWhile)
    moreover from ne have "hd (dropWhile isWhiteSpace s) \<in> set (dropWhile isWhiteSpace s)"
      by (rule hd_in_set)
    ultimately show False using all by blast
  qed
  then show "\<forall>c \<in> set s. isWhiteSpace c" by (simp add: dropWhile_eq_Nil_conv)
next
  assume "\<forall>c \<in> set s. isWhiteSpace c"
  then have empty: "dropWhile isWhiteSpace s = []" by (simp add: dropWhile_eq_Nil_conv)
  show "trim s = []" unfolding trim_def empty by simp
qed

lemma descriptionMissing_iff:
  "descriptionMissing task =
     (description task = None \<or>
      (\<exists>d. description task = Some d \<and>
           (\<forall>c \<in> set d. of_char c \<in> {9, 10, 11, 12, 13, 32, 160 :: nat})))"
proof (cases "description task")
  case None
  then show ?thesis by (simp add: descriptionMissing_def)
next
  case (Some d)
  have "(d = [] \<or> length (trim d) = 0) = (\<forall>c \<in> set d. isWhiteSpace c)"
    using trim_empty_iff[of d] by auto
  with Some show ?thesis by (simp add: descriptionMissing_def isWhiteSpace_def)
qed

text \<open>
  Claim C3. \<open>validateTask\<close> with default options: a task whose priority is \<open>high\<close> and
  whose description is absent or consists only of white space (the code units 9 to 13,
  32 and 160; the empty string included) is invalid, with the description-required
  error among its errors; and when that error is the only error of the task (its
  remaining fields pass all other checks), the same task with priority \<open>medium\<close> and the
  same description is valid.
\<close>

theorem high_priority_needs_description:
  assumes "priority task = ''high''"
    and "description task = None \<or>
         (\<exists>d. description task = Some d \<and>
              (\<forall>c \<in> set d. of_char c \<in> {9, 10, 11, 12, 13, 32, 160 :: nat}))"
  shows "\<not> isValid (validateTask task defaultOptions) \<and>
         DescriptionRequired ''high'' \<in> set (errors (validateTask task defaultOptions)) \<and>
         ((\<forall>e \<in> set (errors (validateTask task defaultOptions)). e = DescriptionRequired ''high'') \<longrightarrow>
            isValid (validateTask (task\<lparr>priority := ''medium''\<rparr>) defaultOptions))"
proof -
  from assms(2) have missing: "descriptionMissing task"
    by (simp add: descriptionMissing_iff)
  have req: "descriptionRequiredErrors task [''high''] = [DescriptionRequired ''high'']"
    using assms(1) missing by (simp add: descriptionRequiredErrors_def)
  have mem: "DescriptionRequired ''high'' \<in> set (errors (validateTask task defaultOptions))"
    by (simp add: validateTask_errors defaultOptions_def orDefault_def req)
  then have invalid: "\<not> isValid (validateTask task defaultOptions)"
    by (auto simp: validateTask_isValid)
  have medium: "isValid (validateTask (task\<lparr>priority := ''medium''\<rparr>) defaultOptions)"
    if only: "\<forall>e \<in> set (errors (validateTask task defaultOptions)). e = DescriptionRequired ''high''"
  proof -
    from only have
      a: "\<forall>e \<in> set (idErrors task defaultIdPattern). e = DescriptionRequired ''high''" and
      b: "\<forall>e \<in> set (titleErrors task 1 100). e = DescriptionRequired ''high''" and
      c: "\<forall>e \<in> set (descriptionErrors task 1000). e = DescriptionRequired ''high''" and
      d: "\<forall>e \<in> set (statusErrors task). e = DescriptionRequired ''high''" and
      e: "\<forall>e \<in> set (complexityErrors task). e = DescriptionRequired ''high''" and
      f: "\<forall>e \<in> set (dependencyErrors task defaultIdPattern []). e = DescriptionRequired ''high''" and
      g: "\<forall>e \<in> set (subtaskErrors task). e = DescriptionRequired ''high''"
      by (simp_all add: validateTask_errors defaultOptions_def orDefault_def ball_Un)
    note idErrors_only[OF a] titleErrors_only[OF b] descriptionErrors_only[OF c]
      statusErrors_only[OF d] complexityErrors_only[OF e] dependencyErrors_only[OF f]
      subtaskErrors_only[OF g]
    then show ?thesis
      by (simp add: validateTask_isValid validateTask_errors defaultOptions_def orDefault_def
          section_errors_priority_free priorityErrors_def validPriorities_def
          descriptionRequiredErrors_def)
  qed
  from invalid mem medium show ?thesis by blast
qed

theorem high_priority_needs_description_witness:
  "priority (exampleTask ''1'' ''high'' None) = ''high'' \<and>
   description (exampleTask ''1'' ''high'' None) = None \<and>
   errors (validateTask (exampleTask ''1'' ''high'' None) defaultOptions) = [DescriptionRequired ''high''] \<and>
   \<not> isValid (validateTask (exampleTask ''1'' ''high'' None) defaultOptions) \<and>
   isValid (validateTask (exampleTask ''1'' ''medium'' None) defaultOptions) \<and>
   priority (blankTask ''high'') = ''high'' \<and>
   description (blankTask ''high'') = Some [CHR '' '', CHR 0x09, CHR 0x0A, CHR 0xA0] \<and>
   errors (validateTask (blankTask ''high'') defaultOptions) = [DescriptionRequired ''high''] \<and>
   \<not> isValid (validateTask (blankTask ''high'') defaultOptions) \<and>
   isValid (validateTask (blankTask ''medium'') defaultOptions)"
proof -
  let ?t = "exampleTask ''1'' ''high'' None"
  let ?b = "blankTask ''high''"
  have p: "priority ?t = ''high''" and d: "description ?t = None"
    by (simp_all add: exampleTask_def)
  have e: "errors (validateTask ?t defaultOptions) = [DescriptionRequired ''high'']"
    by (simp add: validateTask_errors defaultOptions_def orDefault_def exampleTask_def
        idErrors_def defaultIdPattern_def isNonZeroDigit_def titleErrors_def trim_def isWhiteSpace_def
        descriptionErrors_def statusErrors_def validStatuses_def priorityErrors_def
        validPriorities_def descriptionRequiredErrors_def descriptionMissing_def
        complexityErrors_def dependencyErrors_def subtaskErrors_def)
  have m: "?t\<lparr>priority := ''medium''\<rparr> = exampleTask ''1'' ''medium'' None"
    by (simp add: exampleTask_def)
  have bp: "priority ?b = ''high''"
    and bd: "description ?b = Some [CHR '' '', CHR 0x09, CHR 0x0A, CHR 0xA0]"
    by (simp_all add: blankTask_def)
  have bw: "\<forall>c \<in> set [CHR '' '', CHR 0x09, CHR 0x0A, CHR 0xA0].
              of_char c \<in> {9, 10, 11, 12, 13, 32, 160 :: nat}"
    by simp
  have be: "errors (validateTask ?b defaultOptions) = [DescriptionRequired ''high'']"
    by (simp add: validateTask_errors defaultOptions_def orDefault_def blankTask_def
        idErrors_def defaultIdPattern_def isNonZeroDigit_def titleErrors_def trim_def isWhiteSpace_def
        descriptionErrors_def statusErrors_def validStatuses_def priorityErrors_def
        validPriorities_def descriptionRequiredErrors_def descriptionMissing_def
        complexityErrors_def dependencyErrors_def subtaskErrors_def)
  have bm: "?b\<lparr>priority := ''medium''\<rparr> = blankTask ''medium''"
    by (simp add: blankTask_def)
  from high_priority_needs_description[of ?t] p d e m
  have first: "\<not> isValid (validateTask ?t defaultOptions) \<and>
               isValid (validateTask (exampleTask ''1'' ''medium'' None) defaultOptions)"
    by simp
  from high_priority_needs_description[of ?b] bp bd bw be bm
  have second: "\<not> isValid (validateTask ?b defaultOptions) \<and>
                isValid (validateTask (blankTask ''medium'') defaultOptions)"
    by simp
  from p d e first bp bd be second show ?thesis by simp
qed

section \<open>Cycle detection and dangling dependencies\<close>

text \<open>
  Claim C1. For the three tasks in which \<open>A\<close> depends on \<open>B\<close>, \<open>B\<close> on \<open>C\<close> and \<open>C\<close> on
  \<open>A\<close>, the claim expects exactly one cycle, the sequence \<open>[A, B, C]\<close>. The detector
  passes \<open>[...path, depId]\<close> to the recursive call, so the path it slices already ends
  in the identifier that closes the loop: the one cycle it reports is \<open>[A, B, C, A]\<close>.
  \<open>validateTaskBatch\<close> prints a cycle as \<open>cycle.join(" \<rightarrow> ")\<close> followed by \<open>cycle[0]\<close>, which
  expects the sequence without the closing identifier.
\<close>

theorem findCircularDependencies_three_cycle:
  "findCircularDependencies
     [exampleTask ''A'' ''low'' (Some [''B'']), exampleTask ''B'' ''low'' (Some [''C'']),
      exampleTask ''C'' ''low'' (Some [''A''])]
   = [[''A'', ''B'', ''C'', ''A'']]"
  by code_simp

text \<open>
  The second half of claim C1 holds: on every task list whose dependency graph is
  acyclic the detector reports no cycle, and in particular on \<open>A \<rightarrow> B\<close>, \<open>B \<rightarrow> C\<close>.
\<close>

lemma findCircularDependencies_acyclic:
  "acyclic (dependencyGraph tasks) \<Longrightarrow> findCircularDependencies tasks = []"
  using visitAll_acyclic[of tasks "\<lparr>visited = {}, recursionStack = {}, cycles = []\<rparr>" tasks]
  by (simp add: findCircularDependencies_def)

lemma findCircularDependencies_chain:
  "findCircularDependencies
     [exampleTask ''A'' ''low'' (Some [''B'']), exampleTask ''B'' ''low'' (Some [''C'']),
      exampleTask ''C'' ''low'' None] = []"
  by code_simp

text \<open>
  Claim C2. A dependency identifier that is the identifier of no task in the list never
  appears in a cycle reported by \<open>findCircularDependencies\<close> (a total function: nothing
  is raised), while \<open>validateTask\<close>, given the non-empty list as \<open>existingTasks\<close>,
  reports it in a missing-dependency error, and the record is invalid.
\<close>

theorem dangling_dependency_skipped_and_flagged:
  assumes "depId \<notin> task_id ` set tasks"
  shows "(\<forall>c \<in> set (findCircularDependencies tasks). depId \<notin> set c) \<and>
         (tasks \<noteq> [] \<and> dependencies task = Some deps \<and> depId \<in> set deps \<longrightarrow>
            (\<exists>missing. MissingDependencyTasks missing
                  \<in> set (errors (validateTask task (options\<lparr>existingTasks := Some tasks\<rparr>))) \<and>
                depId \<in> set missing) \<and>
            \<not> isValid (validateTask task (options\<lparr>existingTasks := Some tasks\<rparr>)))"
proof -
  have known: "\<forall>c \<in> set (findCircularDependencies tasks). set c \<subseteq> task_id ` set tasks"
    using visitAll_cycles_known[of tasks tasks "\<lparr>visited = {}, recursionStack = {}, cycles = []\<rparr>"]
    by (simp add: findCircularDependencies_def dom_taskMapOf)
  with assms have skipped: "\<forall>c \<in> set (findCircularDependencies tasks). depId \<notin> set c"
    by blast
  have flagged:
    "(\<exists>missing. MissingDependencyTasks missing
          \<in> set (errors (validateTask task (options\<lparr>existingTasks := Some tasks\<rparr>))) \<and>
        depId \<in> set missing) \<and>
     \<not> isValid (validateTask task (options\<lparr>existingTasks := Some tasks\<rparr>))"
    if ne: "tasks \<noteq> []" and deps: "dependencies task = Some deps" and mem: "depId \<in> set deps"
  proof -
    let ?missing = "filter (\<lambda>d. d \<notin> set (map task_id tasks)) deps"
    let ?pat = "orDefault (idPattern (options\<lparr>existingTasks := Some tasks\<rparr>)) defaultIdPattern"
    from assms mem have in_missing: "depId \<in> set ?missing" by simp
    then have "?missing \<noteq> []" by (metis empty_iff list.set(1))
    with ne deps have "MissingDependencyTasks ?missing \<in> set (dependencyErrors task ?pat tasks)"
      by (simp add: dependencyErrors_def Let_def)
    then have err: "MissingDependencyTasks ?missing
        \<in> set (errors (validateTask task (options\<lparr>existingTasks := Some tasks\<rparr>)))"
      by (simp add: validateTask_errors orDefault_def)
    then have "\<not> isValid (validateTask task (options\<lparr>existingTasks := Some tasks\<rparr>))"
      by (auto simp: validateTask_isValid)
    with err in_missing show ?thesis by blast
  qed
  from skipped flagged show ?thesis by blast
qed

theorem dangling_dependency_skipped_and_flagged_witness:
  "''9'' \<notin> task_id ` set [exampleTask ''1'' ''low'' (Some [''2'', ''9'']), exampleTask ''2'' ''low'' (Some [''1''])] \<and>
   findCircularDependencies
     [exampleTask ''1'' ''low'' (Some [''2'', ''9'']), exampleTask ''2'' ''low'' (Some [''1''])]
     = [[''1'', ''2'', ''1'']] \<and>
   errors (validateTask (exampleTask ''1'' ''low'' (Some [''2'', ''9'']))
             (defaultOptions\<lparr>existingTasks :=
                Some [exampleTask ''1'' ''low'' (Some [''2'', ''9'']), exampleTask ''2'' ''low'' (Some [''1''])]\<rparr>))
     = [MissingDependencyTasks [''9'']] \<and>
   \<not> isValid (validateTask (exampleTask ''1'' ''low'' (Some [''2'', ''9'']))
             (defaultOptions\<lparr>existingTasks :=
                Some [exampleTask ''1'' ''low'' (Some [''2'', ''9'']), exampleTask ''2'' ''low'' (Some [''1''])]\<rparr>))"
proof -
  let ?t1 = "exampleTask ''1'' ''low'' (Some [''2'', ''9''])"
  let ?ts = "[?t1, exampleTask ''2'' ''low'' (Some [''1''])]"
  have h: "''9'' \<notin> task_id ` set ?ts" by (simp add: exampleTask_def)
  have c: "findCircularDependencies ?ts = [[''1'', ''2'', ''1'']]" by code_simp
  have e: "errors (validateTask ?t1 (defaultOptions\<lparr>existingTasks := Some ?ts\<rparr>))
             = [MissingDependencyTasks [''9'']]"
    by (simp add: validateTask_errors defaultOptions_def orDefault_def exampleTask_def
        idErrors_def defaultIdPattern_def isNonZeroDigit_def titleErrors_def trim_def isWhiteSpace_def
        descriptionErrors_def statusErrors_def validStatuses_def priorityErrors_def
        validPriorities_def descriptionRequiredErrors_def
        complexityErrors_def dependencyErrors_def subtaskErrors_def)
  have "?ts \<noteq> [] \<and> dependencies ?t1 = Some [''2'', ''9''] \<and> ''9'' \<in> set [''2'', ''9'']"
    by (simp add: exampleTask_def)
  with dangling_dependency_skipped_and_flagged[OF h, of ?t1 "[''2'', ''9'']" defaultOptions]
  have "\<not> isValid (validateTask ?t1 (defaultOptions\<lparr>existingTasks := Some ?ts\<rparr>))"
    by blast
  with h c e show ?thesis by simp
qed

section \<open>Sorting by priority\<close>

text \<open>
  Facts about \<open>arraySort\<close> for a comparator that orders by a key, larger keys first:
  \<open>cmp a b \<le> 0\<close> exactly when the key of \<open>b\<close> is at most the key of \<open>a\<close>.
\<close>

lemma mset_insertBy: "mset (insertBy cmp x ys) = add_mset x (mset ys)"
  by (induction ys) auto

lemma mset_arraySort: "mset (arraySort cmp xs) = mset xs"
  by (induction xs) (auto simp: arraySort_def mset_insertBy)

lemma set_insertBy: "set (insertBy cmp x ys) = insert x (set ys)"
  by (induction ys) auto

lemma sorted_insertBy:
  fixes k :: "'a \<Rightarrow> int"
  assumes key: "\<And>a b. (cmp a b \<le> 0) = (k b \<le> k a)"
    and "sorted_wrt (\<lambda>a b. k b \<le> k a) ys"
  shows "sorted_wrt (\<lambda>a b. k b \<le> k a) (insertBy cmp x ys)"
  using assms(2)
proof (induction ys)
  case Nil
  then show ?case by simp
next
  case (Cons y ys)
  show ?case
  proof (cases "cmp x y \<le> 0")
    case True
    with key have "k y \<le> k x" by simp
    with Cons.prems True show ?thesis by fastforce
  next
    case False
    with key have "k x < k y" by (simp add: not_le)
    with Cons False show ?thesis by (auto simp: set_insertBy)
  qed
qed

lemma sorted_arraySort:
  fixes k :: "'a \<Rightarrow> int"
  assumes key: "\<And>a b. (cmp a b \<le> 0) = (k b \<le> k a)"
  shows "sorted_wrt (\<lambda>a b. k b \<le> k a) (arraySort cmp xs)"
proof (induction xs)
  case Nil
  then show ?case by (simp add: arraySort_def)
next
  case (Cons x xs)
  then have "sorted_wrt (\<lambda>a b. k b \<le> k a) (insertBy cmp x (arraySort cmp xs))"
    by (rule sorted_insertBy[OF key])
  then show ?case by (simp add: arraySort_def)
qed

lemma filter_insertBy:
  fixes k :: "'a \<Rightarrow> int"
  assumes key: "\<And>a b. (cmp a b \<le> 0) = (k b \<le> k a)"
  shows "filter (\<lambda>y. k y = v) (insertBy cmp x ys) =
         (if k x = v then x # filter (\<lambda>y. k y = v) ys else filter (\<lambda>y. k y = v) ys)"
proof (induction ys)
  case Nil
  then show ?case by simp
next
  case (Cons y ys)
  show ?case
  proof (cases "cmp x y \<le> 0")
    case True
    then show ?thesis by simp
  next
    case False
    with key have "k x < k y" by (simp add: not_le)
    with Cons False show ?thesis by auto
  qed
qed

lemma stable_arraySort:
  fixes k :: "'a \<Rightarrow> int"
  assumes key: "\<And>a b. (cmp a b \<le> 0) = (k b \<le> k a)"
  shows "filter (\<lambda>y. k y = v) (arraySort cmp xs) = filter (\<lambda>y. k y = v) xs"
proof (induction xs)
  case Nil
  then show ?case by (simp add: arraySort_def)
next
  case (Cons x xs)
  have "filter (\<lambda>y. k y = v) (insertBy cmp x (arraySort cmp xs)) =
        (if k x = v then x # filter (\<lambda>y. k y = v) (arraySort cmp xs)
         else filter (\<lambda>y. k y = v) (arraySort cmp xs))"
    by (rule filter_insertBy[OF key])
  with Cons show ?case by (simp add: arraySort_def)
qed

lemma stable_arraySort_class:
  fixes k :: "'a \<Rightarrow> int"
  assumes key: "\<And>a b. (cmp a b \<le> 0) = (k b \<le> k a)"
    and cls: "\<And>x. (c x = p) \<Longrightarrow> k x = w" 
  shows "filter (\<lambda>y. c y = p) (arraySort cmp xs) = filter (\<lambda>y. c y = p) xs"
proof -
  have "filter (\<lambda>y. c y = p) zs = filter (\<lambda>y. c y = p) (filter (\<lambda>y. k y = w) zs)" for zs
    using cls by (induction zs) auto
  moreover have "filter (\<lambda>y. k y = w) (arraySort cmp xs) = filter (\<lambda>y. k y = w) xs"
    by (rule stable_arraySort[OF key])
  ultimately show ?thesis by metis
qed

lemma comparePriorities_key:
  "(comparePriorities (priority a) (priority b) \<le> 0) =
   (getPriorityWeight (priority b) \<le> getPriorityWeight (priority a))"
  by (simp add: comparePriorities_def)

lemma sortComparison_asc_key:
  "(sortComparison lc \<lparr>field = ByPriority, order = Asc\<rparr> a b \<le> 0) =
   (priorityWeights (b_priority b) \<le> priorityWeights (b_priority a))"
  by (simp add: sortComparison_def)

lemma sortComparison_desc_key:
  "(sortComparison lc \<lparr>field = ByPriority, order = Desc\<rparr> a b \<le> 0) =
   (- priorityWeights (b_priority b) \<le> - priorityWeights (b_priority a))"
  by (simp add: sortComparison_def)

text \<open>
  Claim C5, as the code has it. \<open>sortByPriority\<close> of the priority indicator, and
  \<open>sortTasks\<close> by priority with order \<open>asc\<close> (which is \<open>sortByPriority\<close> of the helpers),
  return a permutation of the input in which weights never increase (high = 3,
  medium = 2, low = 1) and tasks of equal priority keep their input order; priorities
  \<open>[low, high, medium]\<close> come out as \<open>[high, medium, low]\<close>. \<open>sortTasks\<close> by priority with
  order \<open>desc\<close> negates the comparison: it returns a stable permutation in which weights
  never decrease.
\<close>

theorem priority_sort_stable_by_weight:
  "mset (sortByPriority tasks) = mset tasks \<and>
   sorted_wrt (\<lambda>a b. getPriorityWeight (priority b) \<le> getPriorityWeight (priority a))
     (sortByPriority tasks) \<and>
   filter (\<lambda>t. priority t = p) (sortByPriority tasks) = filter (\<lambda>t. priority t = p) tasks \<and>
   helpers_sortByPriority lc btasks = sortTasks lc btasks \<lparr>field = ByPriority, order = Asc\<rparr> \<and>
   mset (sortTasks lc btasks \<lparr>field = ByPriority, order = Asc\<rparr>) = mset btasks \<and>
   sorted_wrt (\<lambda>a b. priorityWeights (b_priority b) \<le> priorityWeights (b_priority a))
     (sortTasks lc btasks \<lparr>field = ByPriority, order = Asc\<rparr>) \<and>
   filter (\<lambda>t. b_priority t = q) (sortTasks lc btasks \<lparr>field = ByPriority, order = Asc\<rparr>)
     = filter (\<lambda>t. b_priority t = q) btasks \<and>
   mset (sortTasks lc btasks \<lparr>field = ByPriority, order = Desc\<rparr>) = mset btasks \<and>
   sorted_wrt (\<lambda>a b. priorityWeights (b_priority a) \<le> priorityWeights (b_priority b))
     (sortTasks lc btasks \<lparr>field = ByPriority, order = Desc\<rparr>) \<and>
   filter (\<lambda>t. b_priority t = q) (sortTasks lc btasks \<lparr>field = ByPriority, order = Desc\<rparr>)
     = filter (\<lambda>t. b_priority t = q) btasks \<and>
   map priority (sortByPriority [exampleTask ''1'' ''low'' None, exampleTask ''2'' ''high'' None,
                                 exampleTask ''3'' ''medium'' None])
     = [''high'', ''medium'', ''low''] \<and>
   map b_priority (sortTasks lc [basicTask ''1'' Low, basicTask ''2'' High, basicTask ''3'' Medium]
                     \<lparr>field = ByPriority, order = Asc\<rparr>)
     = [High, Medium, Low]"
proof -
  let ?asc = "\<lparr>field = ByPriority, order = Asc\<rparr>"
  let ?desc = "\<lparr>field = ByPriority, order = Desc\<rparr>"
  have a1: "mset (sortByPriority tasks) = mset tasks"
    by (simp add: sortByPriority_def mset_arraySort)
  have a2: "sorted_wrt (\<lambda>a b. getPriorityWeight (priority b) \<le> getPriorityWeight (priority a))
              (sortByPriority tasks)"
    unfolding sortByPriority_def by (rule sorted_arraySort) (rule comparePriorities_key)
  have a3: "filter (\<lambda>t. priority t = p) (sortByPriority tasks) = filter (\<lambda>t. priority t = p) tasks"
    unfolding sortByPriority_def
    by (rule stable_arraySort_class[where k = "\<lambda>t. getPriorityWeight (priority t)"
          and w = "getPriorityWeight p"]) (simp_all add: comparePriorities_key)
  have b0: "helpers_sortByPriority lc btasks = sortTasks lc btasks ?asc"
    by (simp add: helpers_sortByPriority_def)
  have b1: "mset (sortTasks lc btasks ?asc) = mset btasks"
    by (simp add: sortTasks_def mset_arraySort)
  have b2: "sorted_wrt (\<lambda>a b. priorityWeights (b_priority b) \<le> priorityWeights (b_priority a))
              (sortTasks lc btasks ?asc)"
    unfolding sortTasks_def by (rule sorted_arraySort) (rule sortComparison_asc_key)
  have b3: "filter (\<lambda>t. b_priority t = q) (sortTasks lc btasks ?asc)
              = filter (\<lambda>t. b_priority t = q) btasks"
    unfolding sortTasks_def
    by (rule stable_arraySort_class[where k = "\<lambda>t. priorityWeights (b_priority t)"
          and w = "priorityWeights q"]) (simp_all add: sortComparison_asc_key)
  have c1: "mset (sortTasks lc btasks ?desc) = mset btasks"
    by (simp add: sortTasks_def mset_arraySort)
  have "sorted_wrt (\<lambda>a b. - priorityWeights (b_priority b) \<le> - priorityWeights (b_priority a))
              (sortTasks lc btasks ?desc)"
    unfolding sortTasks_def
    by (rule sorted_arraySort[where k = "\<lambda>t. - priorityWeights (b_priority t)"])
       (rule sortComparison_desc_key)
  then have c2: "sorted_wrt (\<lambda>a b. priorityWeights (b_priority a) \<le> priorityWeights (b_priority b))
              (sortTasks lc btasks ?desc)"
    by simp
  have c3: "filter (\<lambda>t. b_priority t = q) (sortTasks lc btasks ?desc)
              = filter (\<lambda>t. b_priority t = q) btasks"
    unfolding sortTasks_def
    by (rule stable_arraySort_class[where k = "\<lambda>t. - priorityWeights (b_priority t)"
          and w = "- priorityWeights q"]) (simp_all add: sortComparison_desc_key)
  have d1: "map priority (sortByPriority [exampleTask ''1'' ''low'' None, exampleTask ''2'' ''high'' None,
                                 exampleTask ''3'' ''medium'' None])
              = [''high'', ''medium'', ''low'']"
    by (simp add: sortByPriority_def arraySort_def comparePriorities_def getPriorityWeight_def
        PRIORITY_CONFIG_def exampleTask_def)
  have d2: "map b_priority (sortTasks lc [basicTask ''1'' Low, basicTask ''2'' High, basicTask ''3'' Medium] ?asc)
              = [High, Medium, Low]"
    by (simp add: sortTasks_def arraySort_def sortComparison_def basicTask_def)
  from a1 a2 a3 b0 b1 b2 b3 c1 c2 c3 d1 d2 show ?thesis by blast
qed

text \<open>
  As stated, claim C5 covers \<open>sortTasks\<close> with field \<open>priority\<close> whatever the order. With
  order \<open>desc\<close> a low-priority task stays before a high-priority one.
\<close>

theorem sortTasks_priority_desc_counterexample:
  "sortTasks (\<lambda>a b. 0) [basicTask ''1'' Low, basicTask ''2'' High] \<lparr>field = ByPriority, order = Desc\<rparr>
     = [basicTask ''1'' Low, basicTask ''2'' High] \<and>
   \<not> sorted_wrt (\<lambda>a b. priorityWeights (b_priority b) \<le> priorityWeights (b_priority a))
         (sortTasks (\<lambda>a b. 0) [basicTask ''1'' Low, basicTask ''2'' High]
            \<lparr>field = ByPriority, order = Desc\<rparr>)"
  by (simp add: sortTasks_def arraySort_def sortComparison_def basicTask_def)

section \<open>The hook: deleting and creating tasks\<close>

lemma deleteTask_present:
  assumes "\<exists>t \<in> set (h_tasks st). b_id t = taskId"
  shows "fst (deleteTask storage taskId (st, w)) = None"
    and "h_tasks (fst (snd (deleteTask storage taskId (st, w))))
           = filter (\<lambda>t. b_id t \<noteq> taskId) (h_tasks st)"
  using assms
  by (auto simp: deleteTask_def autoSave_def saveTasksToStorage_def Let_def split: sum.splits)

lemma length_filter_unique:
  "distinct (map f xs) \<Longrightarrow> x \<in> set xs \<Longrightarrow> length (filter (\<lambda>t. f t = f x) xs) = 1"
proof (induction xs)
  case Nil
  then show ?case by simp
next
  case (Cons y ys)
  show ?case
  proof (cases "f y = f x")
    case True
    with Cons.prems(1) have "f x \<notin> f ` set ys" by simp
    then have "\<forall>t \<in> set ys. f t \<noteq> f x" by (metis imageI)
    then have "filter (\<lambda>t. f t = f x) ys = []"
      by (simp add: filter_empty_conv)
    with True show ?thesis by simp
  next
    case False
    with Cons show ?thesis by auto
  qed
qed

text \<open>
  Claim C6, as the code has it. When the list holds a task with the identifier,
  \<open>deleteTask\<close> throws nothing and leaves exactly the tasks with another identifier, each
  unchanged and in their order; the count drops by the number of tasks that carry the
  identifier, which is one when the identifiers of the list are distinct.
\<close>

theorem deleteTask_keeps_other_tasks:
  assumes "\<exists>t \<in> set (h_tasks st). b_id t = taskId"
  shows "fst (deleteTask storage taskId (st, w)) = None \<and>
         h_tasks (fst (snd (deleteTask storage taskId (st, w))))
           = filter (\<lambda>t. b_id t \<noteq> taskId) (h_tasks st) \<and>
         length (h_tasks (fst (snd (deleteTask storage taskId (st, w)))))
           + length (filter (\<lambda>t. b_id t = taskId) (h_tasks st)) = length (h_tasks st) \<and>
         (distinct (map b_id (h_tasks st)) \<longrightarrow>
            length (h_tasks (fst (snd (deleteTask storage taskId (st, w))))) + 1 = length (h_tasks st))"
proof -
  note del = deleteTask_present[OF assms, of storage w]
  have count: "length (filter (\<lambda>t. b_id t \<noteq> taskId) (h_tasks st))
                 + length (filter (\<lambda>t. b_id t = taskId) (h_tasks st)) = length (h_tasks st)"
    using sum_length_filter_compl[of "\<lambda>t. b_id t = taskId" "h_tasks st"] by simp
  have one: "length (filter (\<lambda>t. b_id t = taskId) (h_tasks st)) = 1"
    if "distinct (map b_id (h_tasks st))"
  proof -
    from assms obtain x where "x \<in> set (h_tasks st)" "b_id x = taskId" by blast
    with length_filter_unique[OF that, of x] show ?thesis by simp
  qed
  from del count one show ?thesis by auto
qed

theorem deleteTask_keeps_other_tasks_witness:
  "(\<exists>t \<in> set (h_tasks (hookState [basicTask ''a'' Low, basicTask ''b'' High, basicTask ''c'' Medium])).
      b_id t = ''b'') \<and>
   distinct (map b_id (h_tasks (hookState [basicTask ''a'' Low, basicTask ''b'' High, basicTask ''c'' Medium]))) \<and>
   h_tasks (fst (snd (deleteTask MemoryStorage ''b''
      (hookState [basicTask ''a'' Low, basicTask ''b'' High, basicTask ''c'' Medium], []))))
     = [basicTask ''a'' Low, basicTask ''c'' Medium] \<and>
   length (h_tasks (fst (snd (deleteTask MemoryStorage ''b''
      (hookState [basicTask ''a'' Low, basicTask ''b'' High, basicTask ''c'' Medium], []))))) + 1 = 3"
proof -
  let ?st = "hookState [basicTask ''a'' Low, basicTask ''b'' High, basicTask ''c'' Medium]"
  have h: "\<exists>t \<in> set (h_tasks ?st). b_id t = ''b''"
    and d: "distinct (map b_id (h_tasks ?st))"
    by (simp_all add: hookState_def basicTask_def)
  have f: "filter (\<lambda>t. b_id t \<noteq> ''b'') (h_tasks ?st) = [basicTask ''a'' Low, basicTask ''c'' Medium]"
    by (simp add: hookState_def basicTask_def)
  have l: "length (h_tasks ?st) = 3" by (simp add: hookState_def)
  from deleteTask_keeps_other_tasks[OF h, of MemoryStorage "[]"] h d f l
  show ?thesis by simp
qed

text \<open>
  As stated, claim C6 promises a count reduced by exactly one for every list that holds
  the identifier. Nothing in the hook keeps identifiers distinct, and the filter drops
  every task that carries the identifier: here two of three.
\<close>

theorem deleteTask_duplicate_id_counterexample:
  "(\<exists>t \<in> set (h_tasks (hookState [basicTask ''a'' Low, basicTask ''a'' High, basicTask ''b'' Low])).
      b_id t = ''a'') \<and>
   length (h_tasks (hookState [basicTask ''a'' Low, basicTask ''a'' High, basicTask ''b'' Low])) = 3 \<and>
   length (h_tasks (fst (snd (deleteTask MemoryStorage ''a''
      (hookState [basicTask ''a'' Low, basicTask ''a'' High, basicTask ''b'' Low], []))))) = 1"
  by (simp add: deleteTask_def autoSave_def saveTasksToStorage_def MemoryStorage_def
      hookState_def basicTask_def Let_def)

lemma nextFreeId_free: "numberToString 10 (nextFreeId ids n) \<notin> set ids"
proof (induction ids n rule: nextFreeId.induct)
  case (1 existingIds nextId)
  then show ?case by (subst nextFreeId.simps) simp
qed

lemma createTask_valid:
  assumes "hv_isValid (helpers_validateTask
             \<lparr>pt_title = Some (c_title data), pt_description = c_description data,
              pt_status = Some (c_status data), pt_priority = Some (c_priority data)\<rparr>)"
  shows "fst (createTask storage data now randomDigits (st, w)) = None"
    and "map b_id (h_tasks (fst (snd (createTask storage data now randomDigits (st, w)))))
           = map b_id (h_tasks st) @ [generateId now randomDigits]"
  using assms
  by (auto simp: createTask_def newTask_def autoSave_def saveTasksToStorage_def Let_def
      split: sum.splits)

text \<open>
  \<open>generateTaskId\<close> of the validation utilities returns an identifier that no task of
  the list it is given carries: this half of claim C8 holds on the code.
\<close>

lemma generateTaskId_fresh: "generateTaskId existing \<notin> task_id ` set existing"
proof -
  have "numberToString 10 (nextFreeId (sort (map task_id existing)) 1)
          \<notin> set (sort (map task_id existing))"
    by (rule nextFreeId_free)
  then show ?thesis by (simp add: generateTaskId_def)
qed

lemma generateTaskId_example:
  "generateTaskId [exampleTask ''1'' ''low'' None, exampleTask ''2'' ''low'' None,
                   exampleTask ''4'' ''low'' None] = ''3''"
  by code_simp

lemma generateId_example: "generateId 1700000000000 ''4fzyo82mvyr'' = ''loyw3v28-4fzyo''"
  by (simp add: generateId_def numberToString_small numberToString_large digitChars_def)

lemma exampleData_valid:
  "hv_isValid (helpers_validateTask
        \<lparr>pt_title = Some (c_title exampleData), pt_description = c_description exampleData,
         pt_status = Some (c_status exampleData), pt_priority = Some (c_priority exampleData)\<rparr>)"
  by (simp add: helpers_validateTask_def exampleData_def trim_def isWhiteSpace_def)

text \<open>
  Claim C8. Creating a task never produces a duplicate identifier. For \<open>generateId\<close> as
  the hook's \<open>createTask\<close> uses it the code misses this: \<open>generateId\<close>, documented as
  generating a unique task ID, is the clock in base 36, a dash and five random digits,
  and \<open>createTask\<close> appends the new task without looking at the list. A list that
  already holds that identifier gets a second task with it, and two calls that read the
  same millisecond and draw the same digits create two tasks with one identifier.
\<close>

theorem createTask_duplicate_id:
  "distinct (map b_id (h_tasks (hookState [basicTask ''loyw3v28-4fzyo'' Low]))) \<and>
   fst (createTask MemoryStorage exampleData 1700000000000 ''4fzyo82mvyr''
          (hookState [basicTask ''loyw3v28-4fzyo'' Low], [])) = None \<and>
   map b_id (h_tasks (fst (snd (createTask MemoryStorage exampleData 1700000000000 ''4fzyo82mvyr''
       (hookState [basicTask ''loyw3v28-4fzyo'' Low], [])))))
     = [''loyw3v28-4fzyo'', ''loyw3v28-4fzyo''] \<and>
   map b_id (h_tasks (fst (snd (createTask MemoryStorage exampleData 1700000000000 ''4fzyo82mvyr''
       (snd (createTask MemoryStorage exampleData 1700000000000 ''4fzyo82mvyr''
          (hookState [], [])))))))
     = [''loyw3v28-4fzyo'', ''loyw3v28-4fzyo'']"
proof -
  note v = exampleData_valid and i = generateId_example
  obtain st1 w1 where first: "snd (createTask MemoryStorage exampleData 1700000000000 ''4fzyo82mvyr''
          (hookState [], [])) = (st1, w1)"
    by (cases "snd (createTask MemoryStorage exampleData 1700000000000 ''4fzyo82mvyr'' (hookState [], []))")
  from createTask_valid(2)[OF v, of MemoryStorage 1700000000000 "''4fzyo82mvyr''" "hookState []" "[]"]
    first i
  have ids1: "map b_id (h_tasks st1) = [''loyw3v28-4fzyo'']"
    by (simp add: hookState_def)
  from createTask_valid(2)[OF v, of MemoryStorage 1700000000000 "''4fzyo82mvyr''" st1 w1] ids1 i
  have twice: "map b_id (h_tasks (fst (snd (createTask MemoryStorage exampleData 1700000000000
        ''4fzyo82mvyr'' (st1, w1))))) = [''loyw3v28-4fzyo'', ''loyw3v28-4fzyo'']"
    by simp
  from createTask_valid[OF v, of MemoryStorage 1700000000000 "''4fzyo82mvyr''"
      "hookState [basicTask ''loyw3v28-4fzyo'' Low]" "[]"] i twice first
  show ?thesis by (simp add: hookState_def basicTask_def)
qed

section \<open>Storage: round trip, missing collections and failures\<close>

lemma newDate_toJSON_Date: "d \<noteq> InvalidDate \<Longrightarrow> newDate (toJSON_Date d) = d"
  by (cases d) simp_all

lemma hydrate_toJSON:
  "createdAt task \<noteq> InvalidDate \<Longrightarrow> updatedAt task \<noteq> InvalidDate \<Longrightarrow>
   hydrate (toJSON task) = task"
  by (simp add: hydrate_def toJSON_def newDate_toJSON_Date)

lemma map_hydrate_toJSON:
  "\<forall>t \<in> set ts. createdAt t \<noteq> InvalidDate \<and> updatedAt t \<noteq> InvalidDate \<Longrightarrow>
   map hydrate (map toJSON ts) = ts"
  by (induction ts) (simp_all add: hydrate_toJSON)

lemma file_save_load:
  "fs_fault fs = None \<Longrightarrow>
   (case saveTasks (FileStorage path) ts fs of
      Inr fs' \<Rightarrow> loadTasks (FileStorage path) fs' = Inr (map hydrate (map toJSON ts))
    | Inl e \<Rightarrow> False)"
  by (simp add: FileStorage_def FileStorage_saveTasks_def FileStorage_loadTasks_def
      writeFile_def readFile_def JSON_stringify_def)

lemma local_save_load:
  "ws_fault ws = None \<Longrightarrow>
   (case saveTasks (LocalStorage key) ts ws of
      Inr ws' \<Rightarrow> loadTasks (LocalStorage key) ws' = Inr (map hydrate (map toJSON ts))
    | Inl e \<Rightarrow> False)"
  by (simp add: LocalStorage_def LocalStorage_saveTasks_def LocalStorage_loadTasks_def
      setItem_def getItem_def JSON_stringify_def)

lemma api_save_load:
  "net_fault server = None \<Longrightarrow>
   (case saveTasks ApiStorage ts server of
      Inr server' \<Rightarrow> loadTasks ApiStorage server' = Inr (map hydrate (map toJSON ts))
    | Inl e \<Rightarrow> False)"
  by (simp add: ApiStorage_def ApiStorage_saveTasks_def ApiStorage_saveTasks_from_def
      ApiStorage_loadTasks_def ApiStorage_loadTasks_from_def fetch_PUT_def fetch_GET_def
      JSON_stringify_def)

lemma memory_save_load:
  "(case saveTasks MemoryStorage ts m of
      Inr m' \<Rightarrow> loadTasks MemoryStorage m' = Inr ts
    | Inl e \<Rightarrow> False)"
  by (simp add: MemoryStorage_def)

text \<open>
  Claim C4, as the code has it. For every task list whose \<open>createdAt\<close> and \<open>updatedAt\<close>
  are valid dates, \<open>saveTasks\<close> followed by \<open>loadTasks\<close> on the same adapter (file,
  \<open>localStorage\<close>, API against a server that stores what is put; no I/O fault) succeeds
  and yields the list that was saved: each timestamp is written as the ISO-8601 string of
  its time value and re-hydrated to a \<open>Date\<close> with that time value. The memory adapter
  returns the saved list whatever its dates are.
\<close>

theorem save_then_load_roundtrip:
  assumes "\<forall>t \<in> set ts. createdAt t \<noteq> InvalidDate \<and> updatedAt t \<noteq> InvalidDate"
  shows "(fs_fault fs = None \<longrightarrow>
            (case saveTasks (FileStorage path) ts fs of
               Inr fs' \<Rightarrow> loadTasks (FileStorage path) fs' = Inr ts | Inl e \<Rightarrow> False)) \<and>
         (ws_fault ws = None \<longrightarrow>
            (case saveTasks (LocalStorage key) ts ws of
               Inr ws' \<Rightarrow> loadTasks (LocalStorage key) ws' = Inr ts | Inl e \<Rightarrow> False)) \<and>
         (net_fault server = None \<longrightarrow>
            (case saveTasks ApiStorage ts server of
               Inr server' \<Rightarrow> loadTasks ApiStorage server' = Inr ts | Inl e \<Rightarrow> False)) \<and>
         (case saveTasks MemoryStorage anyTasks m of
            Inr m' \<Rightarrow> loadTasks MemoryStorage m' = Inr anyTasks | Inl e \<Rightarrow> False) \<and>
         (\<forall>t \<in> set ts. \<exists>c u. createdAt t = DateOf c \<and> s_createdAt (toJSON t) = IsoString c \<and>
                               updatedAt t = DateOf u \<and> s_updatedAt (toJSON t) = IsoString u)"
proof -
  note rt = map_hydrate_toJSON[OF assms]
  have iso: "\<exists>c u. createdAt t = DateOf c \<and> s_createdAt (toJSON t) = IsoString c \<and>
                   updatedAt t = DateOf u \<and> s_updatedAt (toJSON t) = IsoString u"
    if "t \<in> set ts" for t
  proof -
    from assms that have "createdAt t \<noteq> InvalidDate" "updatedAt t \<noteq> InvalidDate" by auto
    then show ?thesis
      by (cases "createdAt t"; cases "updatedAt t") (simp_all add: toJSON_def)
  qed
  from file_save_load[of fs path ts] local_save_load[of ws key ts] api_save_load[of server ts]
    memory_save_load[of anyTasks m] iso
  show ?thesis unfolding rt by blast
qed

theorem save_then_load_roundtrip_witness:
  "createdAt (basicTask ''a'' Low) \<noteq> InvalidDate \<and> updatedAt (basicTask ''a'' Low) \<noteq> InvalidDate \<and>
   createdAt (basicTask ''b'' High) \<noteq> InvalidDate \<and> updatedAt (basicTask ''b'' High) \<noteq> InvalidDate \<and>
   fs_fault emptyDisk = None \<and> ws_fault emptyWebStorage = None \<and> net_fault freshServer = None \<and>
   (case saveTasks (FileStorage ''tasks.json'') [basicTask ''a'' Low, basicTask ''b'' High] emptyDisk of
      Inr fs' \<Rightarrow> loadTasks (FileStorage ''tasks.json'') fs' = Inr [basicTask ''a'' Low, basicTask ''b'' High]
    | Inl e \<Rightarrow> False) \<and>
   (case saveTasks (LocalStorage ''simple-task-manager-tasks'') [basicTask ''a'' Low, basicTask ''b'' High]
           emptyWebStorage of
      Inr ws' \<Rightarrow> loadTasks (LocalStorage ''simple-task-manager-tasks'') ws'
                  = Inr [basicTask ''a'' Low, basicTask ''b'' High]
    | Inl e \<Rightarrow> False) \<and>
   (case saveTasks ApiStorage [basicTask ''a'' Low, basicTask ''b'' High] freshServer of
      Inr server' \<Rightarrow> loadTasks ApiStorage server' = Inr [basicTask ''a'' Low, basicTask ''b'' High]
    | Inl e \<Rightarrow> False) \<and>
   s_createdAt (toJSON (basicTask ''a'' Low)) = IsoString 1700000000000"
proof -
  let ?ts = "[basicTask ''a'' Low, basicTask ''b'' High]"
  have h: "\<forall>t \<in> set ?ts. createdAt t \<noteq> InvalidDate \<and> updatedAt t \<noteq> InvalidDate"
    by (simp add: basicTask_def)
  have f: "fs_fault emptyDisk = None" "ws_fault emptyWebStorage = None" "net_fault freshServer = None"
    by (simp_all add: emptyDisk_def emptyWebStorage_def freshServer_def)
  have s: "s_createdAt (toJSON (basicTask ''a'' Low)) = IsoString 1700000000000"
    by (simp add: toJSON_def basicTask_def)
  from save_then_load_roundtrip[OF h, of emptyDisk "''tasks.json''" emptyWebStorage
      "''simple-task-manager-tasks''" freshServer "[]" "[]"] h f s
  show ?thesis by simp
qed

text \<open>
  As stated, claim C4 covers every task list. A task whose \<open>createdAt\<close> is the invalid
  date is written with \<open>"createdAt": null\<close>, and \<open>new Date(null)\<close> is the epoch: the list
  loaded from the file differs from the list saved.
\<close>

theorem invalid_date_roundtrip_counterexample:
  "(case saveTasks (FileStorage ''tasks.json'') [undatedTask] emptyDisk of
      Inr fs' \<Rightarrow> loadTasks (FileStorage ''tasks.json'') fs' = Inr [undatedTask\<lparr>createdAt := DateOf 0\<rparr>]
    | Inl e \<Rightarrow> False) \<and>
   undatedTask\<lparr>createdAt := DateOf 0\<rparr> \<noteq> undatedTask"
  by (simp add: FileStorage_def FileStorage_saveTasks_def FileStorage_loadTasks_def
      writeFile_def readFile_def JSON_stringify_def emptyDisk_def undatedTask_def
      hydrate_def toJSON_def)

lemma file_load_missing:
  "fs_fault fs = None \<Longrightarrow> files fs path = None \<Longrightarrow> loadTasks (FileStorage path) fs = Inr []"
  by (simp add: FileStorage_def FileStorage_loadTasks_def readFile_def noSuchFile_def)

lemma local_load_missing:
  "ws_fault ws = None \<Longrightarrow> items ws key = None \<Longrightarrow> loadTasks (LocalStorage key) ws = Inr []"
  by (simp add: LocalStorage_def LocalStorage_loadTasks_def getItem_def)

lemma memory_load_fresh: "loadTasks MemoryStorage MemoryStorage_initial = Inr []"
  by (simp add: MemoryStorage_def MemoryStorage_initial_def)

lemma api_load_not_ok:
  "ApiStorage_loadTasks_from (Response False stext data)
     = Inl (JsError None (''Failed to load tasks: '' @ (''API request failed: '' @ stext)))"
  by (simp add: ApiStorage_loadTasks_from_def)

lemma api_load_missing:
  "net_fault server = None \<Longrightarrow> collection server = None \<Longrightarrow>
   loadTasks ApiStorage server
     = Inl (JsError None (''Failed to load tasks: '' @ (''API request failed: '' @ ''Not Found'')))"
  by (simp add: ApiStorage_def ApiStorage_loadTasks_def fetch_GET_def api_load_not_ok)

lemma file_load_fault:
  "fs_fault fs = Some e \<Longrightarrow> code e \<noteq> Some ''ENOENT'' \<Longrightarrow>
   loadTasks (FileStorage path) fs = Inl (JsError None (''Failed to load tasks: '' @ message e))"
  by (simp add: FileStorage_def FileStorage_loadTasks_def readFile_def)

lemma file_load_unparsable:
  "fs_fault fs = None \<Longrightarrow> files fs path = Some (OtherText msg) \<Longrightarrow>
   loadTasks (FileStorage path) fs = Inl (JsError None (''Failed to load tasks: '' @ msg))"
  by (simp add: FileStorage_def FileStorage_loadTasks_def readFile_def)

lemma local_load_unparsable:
  "ws_fault ws = None \<Longrightarrow> items ws key = Some (OtherText msg) \<Longrightarrow>
   loadTasks (LocalStorage key) ws = Inl (JsError None (''Failed to load tasks: '' @ msg))"
  by (simp add: LocalStorage_def LocalStorage_loadTasks_def getItem_def)

lemma api_load_unparsable:
  "ApiStorage_loadTasks_from (Response True stext (OtherText msg))
     = Inl (JsError None (''Failed to load tasks: '' @ msg))"
  by (simp add: ApiStorage_loadTasks_from_def)

lemma local_load_fault:
  "ws_fault ws = Some e \<Longrightarrow>
   loadTasks (LocalStorage key) ws = Inl (JsError None (''Failed to load tasks: '' @ message e))"
  by (simp add: LocalStorage_def LocalStorage_loadTasks_def getItem_def)

lemma api_load_fault:
  "net_fault server = Some e \<Longrightarrow>
   loadTasks ApiStorage server = Inl (JsError None (''Failed to load tasks: '' @ message e))"
  by (simp add: ApiStorage_def ApiStorage_loadTasks_def ApiStorage_loadTasks_from_def fetch_GET_def)




text \<open>
  Claim C7, as the code has it. \<open>loadTasks\<close> on a collection that does not exist yet
  returns the empty list for the file adapter (file absent, \<open>ENOENT\<close>), the
  \<open>localStorage\<close> adapter (key absent) and a fresh memory adapter. The API adapter
  raises on every response that is not \<open>ok\<close>, a not-found response included, with the
  message \<open>Failed to load tasks: API request failed: <status text>\<close>. Any other failure
  (a file-system fault whose code is not \<open>ENOENT\<close>, text that does not parse, a throwing
  \<open>localStorage\<close>, a network failure) is raised wrapped in \<open>Failed to load tasks: ...\<close>.
\<close>

theorem load_missing_collection:
  "(fs_fault fs = None \<and> files fs path = None \<longrightarrow> loadTasks (FileStorage path) fs = Inr []) \<and>
   (ws_fault ws = None \<and> items ws key = None \<longrightarrow> loadTasks (LocalStorage key) ws = Inr []) \<and>
   loadTasks MemoryStorage MemoryStorage_initial = Inr [] \<and>
   ApiStorage_loadTasks_from (Response False stext data)
     = Inl (JsError None (''Failed to load tasks: '' @ (''API request failed: '' @ stext))) \<and>
   (net_fault server = None \<and> collection server = None \<longrightarrow>
      loadTasks ApiStorage server
        = Inl (JsError None (''Failed to load tasks: '' @ (''API request failed: '' @ ''Not Found'')))) \<and>
   (fs_fault fs = Some e \<and> code e \<noteq> Some ''ENOENT'' \<longrightarrow>
      loadTasks (FileStorage path) fs = Inl (JsError None (''Failed to load tasks: '' @ message e))) \<and>
   (fs_fault fs = None \<and> files fs path = Some (OtherText msg) \<longrightarrow>
      loadTasks (FileStorage path) fs = Inl (JsError None (''Failed to load tasks: '' @ msg))) \<and>
   (ws_fault ws = Some e \<longrightarrow>
      loadTasks (LocalStorage key) ws = Inl (JsError None (''Failed to load tasks: '' @ message e))) \<and>
   (net_fault server = Some e \<longrightarrow>
      loadTasks ApiStorage server = Inl (JsError None (''Failed to load tasks: '' @ message e))) \<and>
   (ws_fault ws = None \<and> items ws key = Some (OtherText msg) \<longrightarrow>
      loadTasks (LocalStorage key) ws = Inl (JsError None (''Failed to load tasks: '' @ msg))) \<and>
   ApiStorage_loadTasks_from (Response True stext (OtherText msg))
     = Inl (JsError None (''Failed to load tasks: '' @ msg))"
  using file_load_missing[of fs path] local_load_missing[of ws key] memory_load_fresh
    api_load_not_ok[of stext data] api_load_missing[of server] file_load_fault[of fs e path]
    file_load_unparsable[of fs path msg] local_load_fault[of ws e key] api_load_fault[of server e]
    local_load_unparsable[of ws key msg] api_load_unparsable[of stext msg]
  by blast

theorem load_missing_collection_witness:
  "fs_fault emptyDisk = None \<and> files emptyDisk ''tasks.json'' = None \<and>
   loadTasks (FileStorage ''tasks.json'') emptyDisk = Inr [] \<and>
   ws_fault emptyWebStorage = None \<and> items emptyWebStorage ''simple-task-manager-tasks'' = None \<and>
   loadTasks (LocalStorage ''simple-task-manager-tasks'') emptyWebStorage = Inr [] \<and>
   net_fault freshServer = None \<and> collection freshServer = None \<and>
   loadTasks ApiStorage freshServer
     = Inl (JsError None ''Failed to load tasks: API request failed: Not Found'') \<and>
   fs_fault (emptyDisk\<lparr>fs_fault := Some (JsError (Some ''EACCES'') ''EACCES: permission denied'')\<rparr>)
     = Some (JsError (Some ''EACCES'') ''EACCES: permission denied'') \<and>
   loadTasks (FileStorage ''tasks.json'')
       (emptyDisk\<lparr>fs_fault := Some (JsError (Some ''EACCES'') ''EACCES: permission denied'')\<rparr>)
     = Inl (JsError None ''Failed to load tasks: EACCES: permission denied'')"
proof -
  let ?e = "JsError (Some ''EACCES'') ''EACCES: permission denied''"
  have a: "fs_fault emptyDisk = None \<and> files emptyDisk ''tasks.json'' = None"
    and b: "ws_fault emptyWebStorage = None \<and> items emptyWebStorage ''simple-task-manager-tasks'' = None"
    and c: "net_fault freshServer = None \<and> collection freshServer = None"
    and d: "fs_fault (emptyDisk\<lparr>fs_fault := Some ?e\<rparr>) = Some ?e \<and> code ?e \<noteq> Some ''ENOENT''"
    by (simp_all add: emptyDisk_def emptyWebStorage_def freshServer_def)
  from load_missing_collection[of emptyDisk "''tasks.json''" emptyWebStorage
      "''simple-task-manager-tasks''" "''Not Found''" EmptyText freshServer]
    load_missing_collection[of "emptyDisk\<lparr>fs_fault := Some ?e\<rparr>" "''tasks.json''" emptyWebStorage
      "''simple-task-manager-tasks''" "''Not Found''" EmptyText freshServer ?e]
    a b c d
  show ?thesis by simp
qed

text \<open>
  As stated, claim C7 has the API adapter return an empty list for a not-found
  response. \<open>ApiStorage.loadTasks\<close> throws for every response whose \<open>ok\<close> flag is false.
\<close>

theorem api_not_found_counterexample:
  "fetch_GET freshServer = Response False ''Not Found'' EmptyText \<and>
   loadTasks ApiStorage freshServer
     = Inl (JsError None ''Failed to load tasks: API request failed: Not Found'') \<and>
   loadTasks ApiStorage freshServer \<noteq> Inr []"
  by (simp add: ApiStorage_def ApiStorage_loadTasks_def ApiStorage_loadTasks_from_def
      fetch_GET_def freshServer_def)







text \<open>
  Outside the interface the validator can raise: with a description that is a truthy
  value of another type and a priority that requires a description, \<open>trim\<close> is called on
  a value that has no such method.
\<close>

lemma validateTask_loose_raises:
  "validateTask_loose (loosen task\<lparr>lt_priority := ''high'', lt_description := IllTyped True\<rparr>) defaultOptions
     = Inl (JsError None ''task.description.trim is not a function'')"
  by (simp add: validateTask_loose_def defaultOptions_def orDefault_def Let_def)




end
